theory Spec2Isabelle
  imports Main "HOL-Library.Word" "HOL-Library.AList"
begin

section \<open>Values of the decoded document\<close>

text \<open>
  \<^verbatim>\<open>main.js\<close> works on plain JavaScript values: the tree that the converter or the
  text parser returns.  A field mapping is kept as an association list in enumeration
  order, which is what \<^verbatim>\<open>for (key in object)\<close> visits; the keys that the program
  itself adds (\<^verbatim>\<open>data\<close>, \<^verbatim>\<open>width\<close>, \<^verbatim>\<open>height\<close>, \<^verbatim>\<open>tileSheets\<close>,
  \<^verbatim>\<open>extractedImages\<close>) are not array indices, so a new one goes to the end.
  Numbers are integers (the passes store and compare no number; they only test a value
  for being falsy), text is a list of 8-bit characters, a \<^verbatim>\<open>Buffer\<close> is a list
  of bytes.  The names that \<^verbatim>\<open>main.js\<close> reads with a fixed key (\<^verbatim>\<open>content\<close>,
  \<^verbatim>\<open>data\<close>, \<^verbatim>\<open>width\<close>, \<^verbatim>\<open>height\<close>, \<^verbatim>\<open>type\<close>, \<^verbatim>\<open>path\<close>,
  \<^verbatim>\<open>extractedImages\<close>) are names of no property of a prototype of the runtime, so
  such a read finds an own property or nothing; \<^verbatim>\<open>toString\<close>, which line 222 calls, is
  inherited (\<open>is_tBIN10\<close> below).  The one read with a key that comes from the input,
  line 267, also looks at the prototype chain (\<open>get_computed\<close> below).
\<close>

type_synonym byte = "8 word"

datatype jsval =
    Undefined
  | Null
  | Bool bool
  | Num int
  | Str string
  | Buf "byte list"
  | Arr "jsval list"
  | Obj "(string \<times> jsval) list"

type_synonym props = "(string \<times> jsval) list"

text \<open>
  The exceptions a run can end with.  \<open>ReadError\<close> is \<^verbatim>\<open>util.ReadError\<close>;
  \<open>TypeError\<close> and \<open>RangeError\<close> are the runtime's own; \<open>SystemError code\<close> is what
  the file system module throws (\<^verbatim>\<open>e.code\<close>); \<open>CodecError\<close> is a failure of the
  image codec.  \<open>UnknownPropertyTag\<close> and \<open>PathResolutionError\<close> are the two further
  kinds the specification names; no line of \<^verbatim>\<open>main.js\<close> constructs either.
  \<open>OutsideModel\<close> ends a run that leaves what is modelled here (a coercion of the
  runtime or an input that the description of an absent module does not cover).
\<close>

datatype error =
    ReadError
  | TypeError
  | RangeError
  | SystemError string
  | CodecError
  | UnknownPropertyTag
  | PathResolutionError
  | OutsideModel

definition bindE :: "error + 'a \<Rightarrow> ('a \<Rightarrow> error + 'b) \<Rightarrow> error + 'b" where
  "bindE m f = (case m of Inl e \<Rightarrow> Inl e | Inr x \<Rightarrow> f x)"

subsection \<open>Decimal indices\<close>

fun dec :: "nat \<Rightarrow> string" where
  "dec n = (if n < 10 then [char_of (48 + n)] else dec (n div 10) @ [char_of (48 + n mod 10)])"

declare dec.simps [simp del]

definition digit_val :: "char \<Rightarrow> nat option" where
  "digit_val c = (let k = (of_char c :: nat) in if 48 \<le> k \<and> k \<le> 57 then Some (k - 48) else None)"

fun digits_val :: "nat \<Rightarrow> string \<Rightarrow> nat option" where
  "digits_val acc [] = Some acc"
| "digits_val acc (c # cs) =
     (case digit_val c of None \<Rightarrow> None | Some d \<Rightarrow> digits_val (10 * acc + d) cs)"

definition parse_index :: "string \<Rightarrow> nat option" where
  \<comment> \<open>a key is an array index when it is the canonical decimal form of a number\<close>
  "parse_index s =
     (if s = [] then None
      else if hd s = CHR ''0'' \<and> tl s \<noteq> [] then None
      else digits_val 0 s)"

subsection \<open>Reading, writing and deleting a property\<close>

definition own :: "props \<Rightarrow> string \<Rightarrow> jsval" where
  "own kvs k = (case map_of kvs k of Some v \<Rightarrow> v | None \<Rightarrow> Undefined)"

definition elem :: "'a list \<Rightarrow> string \<Rightarrow> 'a option" where
  "elem xs k = (case parse_index k of
                  Some i \<Rightarrow> if i < length xs then Some (xs ! i) else None
                | None \<Rightarrow> None)"

fun get_prop :: "jsval \<Rightarrow> string \<Rightarrow> error + jsval" where
  \<comment> \<open>\<^verbatim>\<open>object[key]\<close>: reading a property of \<^verbatim>\<open>undefined\<close> or \<^verbatim>\<open>null\<close> throws\<close>
  "get_prop Undefined k = Inl TypeError"
| "get_prop Null k = Inl TypeError"
| "get_prop (Bool b) k = Inr Undefined"
| "get_prop (Num n) k = Inr Undefined"
| "get_prop (Str s) k =
     Inr (if k = ''length'' then Num (int (length s))
          else case elem s k of Some c \<Rightarrow> Str [c] | None \<Rightarrow> Undefined)"
| "get_prop (Buf bs) k =
     Inr (if k = ''length'' then Num (int (length bs))
          else case elem bs k of Some b \<Rightarrow> Num (uint b) | None \<Rightarrow> Undefined)"
| "get_prop (Arr xs) k =
     Inr (if k = ''length'' then Num (int (length xs))
          else case elem xs k of Some x \<Rightarrow> x | None \<Rightarrow> Undefined)"
| "get_prop (Obj kvs) k = Inr (own kvs k)"

fun has_own :: "jsval \<Rightarrow> string \<Rightarrow> bool" where
  "has_own (Obj kvs) k = (k \<in> set (map fst kvs))"
| "has_own (Arr xs) k = (k = ''length'' \<or> elem xs k \<noteq> None)"
| "has_own (Str s) k = (k = ''length'' \<or> elem s k \<noteq> None)"
| "has_own (Buf bs) k = (k = ''length'' \<or> elem bs k \<noteq> None)"
| "has_own v k = False"

definition get_computed :: "(jsval \<Rightarrow> string \<Rightarrow> bool) \<Rightarrow> jsval \<Rightarrow> string \<Rightarrow> error + jsval" where
  \<comment> \<open>\<^verbatim>\<open>object[key]\<close> for a key computed at run time: an own property, else a property
      of the prototype chain, else \<^verbatim>\<open>undefined\<close>.  \<open>proto v k\<close> says that the prototype
      chain of \<open>v\<close> has a property \<open>k\<close> (\<^verbatim>\<open>constructor\<close>, \<^verbatim>\<open>toString\<close> and others
      for every value but \<^verbatim>\<open>undefined\<close> and \<^verbatim>\<open>null\<close>, \<^verbatim>\<open>map\<close> and others for an
      array).  What is read there is a function or an object of the runtime, which is no
      \<^typ>\<open>jsval\<close>\<close>
  "get_computed proto object k =
     (if \<not> has_own object k \<and> object \<noteq> Undefined \<and> object \<noteq> Null \<and> proto object k
      then Inl OutsideModel
      else get_prop object k)"

fun set_prop :: "jsval \<Rightarrow> string \<Rightarrow> jsval \<Rightarrow> error + jsval" where
  \<comment> \<open>\<^verbatim>\<open>object.key = v\<close> in strict mode, for a key that is not an array index: it
      throws on \<^verbatim>\<open>undefined\<close>, \<^verbatim>\<open>null\<close> and on every primitive; a named property
      added to an array or a buffer has no place in \<^typ>\<open>jsval\<close>\<close>
  "set_prop (Obj kvs) k v = Inr (Obj (AList.update k v kvs))"
| "set_prop (Arr xs) k v = Inl OutsideModel"
| "set_prop (Buf bs) k v = Inl OutsideModel"
| "set_prop _ k v = Inl TypeError"

fun delete_prop :: "string \<Rightarrow> jsval \<Rightarrow> jsval" where
  \<comment> \<open>\<^verbatim>\<open>delete object.key\<close> for \<^verbatim>\<open>data\<close>, \<^verbatim>\<open>width\<close>, \<^verbatim>\<open>height\<close>: nothing happens
      where the value has no such own property\<close>
  "delete_prop k (Obj kvs) = Obj (AList.delete k kvs)"
| "delete_prop k v = v"

fun put_child :: "jsval \<Rightarrow> string \<Rightarrow> jsval \<Rightarrow> jsval" where
  \<comment> \<open>the tree after the child read at \<open>k\<close> was changed in place\<close>
  "put_child (Obj kvs) k v = Obj (AList.update k v kvs)"
| "put_child (Arr xs) k v = (case parse_index k of Some i \<Rightarrow> Arr (xs[i := v]) | None \<Rightarrow> Arr xs)"
| "put_child w k v = w"

fun falsy :: "jsval \<Rightarrow> bool" where
  \<comment> \<open>\<^verbatim>\<open>!v\<close>\<close>
  "falsy Undefined = True"
| "falsy Null = True"
| "falsy (Bool b) = (\<not> b)"
| "falsy (Num n) = (n = 0)"
| "falsy (Str s) = (s = [])"
| "falsy _ = False"

subsection \<open>Tagged composites\<close>

text \<open>
  Modelled from the spec: \<^verbatim>\<open>typeyaml.isTypeObject\<close> is in \<^verbatim>\<open>typeyaml.js\<close>, which is
  not among the sources.  The specification: a node is tagged iff it is a field mapping
  with exactly the two recognized keys, the tag key and the payload key; \<^verbatim>\<open>main.js\<close>
  reads them as \<^verbatim>\<open>type\<close> and \<^verbatim>\<open>data\<close>.
\<close>

fun isTypeObject :: "jsval \<Rightarrow> bool" where
  "isTypeObject (Obj kvs) =
     (''type'' \<in> set (map fst kvs) \<and> ''data'' \<in> set (map fst kvs) \<and>
      list_all (\<lambda>k. k = ''type'' \<or> k = ''data'') (map fst kvs))"
| "isTypeObject _ = False"

fun loose_eq_text :: "jsval \<Rightarrow> string \<Rightarrow> bool" where
  \<comment> \<open>\<^verbatim>\<open>v == 'Texture2D'\<close> for a text \<open>t\<close> that is not empty, is no number and has no
      comma: text is compared as it is; a buffer is decoded first and yields ASCII text
      only from those very bytes; an array is joined with commas, so only a one-element
      array can match; \<^verbatim>\<open>undefined\<close>, \<^verbatim>\<open>null\<close>, booleans, numbers and field
      mappings never match\<close>
  "loose_eq_text (Str s) t = (s = t)"
| "loose_eq_text (Buf bs) t = (bs = map of_char t)"
| "loose_eq_text (Arr [x]) t = loose_eq_text x t"
| "loose_eq_text _ t = False"


section \<open>The extraction traversal\<close>

text \<open>
  \<^verbatim>\<open>extractImages(object, path)\<close>, lines 229 to 261.  The function returns the list of
  placeholders and changes the tree in place; here it returns the placeholders together
  with the tree as it is afterwards.  The branches are the source's, in its order: a falsy
  value or one that is no object gives no image; a tagged node whose tag is
  \<^verbatim>\<open>Texture2D\<close> gives one placeholder and loses \<^verbatim>\<open>data\<close>, \<^verbatim>\<open>width\<close> and
  \<^verbatim>\<open>height\<close> from its payload; an array is walked by index; any other tagged node is
  walked through its payload with the path as it is; any other object is walked by key.
  The keys of a buffer are its indices and its elements are numbers, so a buffer gives no
  image.
\<close>

lemma size_own: "size (own kvs k) < Suc (size_list (size_prod (\<lambda>_. 0) size) kvs)"
  by (induction kvs) (auto simp: own_def)

function extractImages :: "jsval \<Rightarrow> string \<Rightarrow> error + (jsval list \<times> jsval)"
  and extractImages_elems :: "jsval list \<Rightarrow> nat \<Rightarrow> string \<Rightarrow> error + (jsval list \<times> jsval list)"
  and extractImages_fields :: "props \<Rightarrow> string \<Rightarrow> error + (jsval list \<times> props)"
where
  "extractImages (Obj kvs) path =
     (if isTypeObject (Obj kvs) \<and> loose_eq_text (own kvs ''type'') ''Texture2D'' then
        (let payload = own kvs ''data'' in
         bindE (get_prop payload ''data'') (\<lambda>d.
         bindE (get_prop payload ''width'') (\<lambda>w.
         bindE (get_prop payload ''height'') (\<lambda>h.
           Inr ([Obj [(''data'', d), (''width'', w), (''height'', h), (''path'', Str path)]],
                Obj (AList.update ''data''
                       (delete_prop ''height'' (delete_prop ''width'' (delete_prop ''data'' payload)))
                       kvs))))))
      else if isTypeObject (Obj kvs) then
        (case extractImages (own kvs ''data'') path of
           Inl e \<Rightarrow> Inl e
         | Inr (images, payload') \<Rightarrow> Inr (images, Obj (AList.update ''data'' payload' kvs)))
      else
        (case extractImages_fields kvs (if path \<noteq> [] then path @ ''.'' else path) of
           Inl e \<Rightarrow> Inl e
         | Inr (images, kvs') \<Rightarrow> Inr (images, Obj kvs')))"
| "extractImages (Arr xs) path =
     (case extractImages_elems xs 0 (if path \<noteq> [] then path @ ''.'' else path) of
        Inl e \<Rightarrow> Inl e
      | Inr (images, xs') \<Rightarrow> Inr (images, Arr xs'))"
| "extractImages (Buf bs) path = Inr ([], Buf bs)"
| "extractImages Undefined path = Inr ([], Undefined)"
| "extractImages Null path = Inr ([], Null)"
| "extractImages (Bool b) path = Inr ([], Bool b)"
| "extractImages (Num n) path = Inr ([], Num n)"
| "extractImages (Str s) path = Inr ([], Str s)"
| "extractImages_elems [] i path = Inr ([], [])"
| "extractImages_elems (x # xs) i path =
     (case extractImages x (path @ dec i) of
        Inl e \<Rightarrow> Inl e
      | Inr (images, x') \<Rightarrow>
          (case extractImages_elems xs (Suc i) path of
             Inl e \<Rightarrow> Inl e
           | Inr (images', xs') \<Rightarrow> Inr (images @ images', x' # xs')))"
| "extractImages_fields [] path = Inr ([], [])"
| "extractImages_fields ((key, v) # kvs) path =
     (case extractImages v (path @ key) of
        Inl e \<Rightarrow> Inl e
      | Inr (images, v') \<Rightarrow>
          (case extractImages_fields kvs path of
             Inl e \<Rightarrow> Inl e
           | Inr (images', kvs') \<Rightarrow> Inr (images @ images', (key, v') # kvs')))"
  by pat_completeness auto

termination
  by (relation "measure (\<lambda>x. case x of
         Inl (v, p) \<Rightarrow> size v
       | Inr (Inl (xs, i, p)) \<Rightarrow> size_list size xs
       | Inr (Inr (kvs, p)) \<Rightarrow> size_list (size_prod (\<lambda>_. 0) size) kvs)")
     (auto simp: size_own)


section \<open>The byte cursor and the byte writer\<close>

text \<open>
  Modelled from the spec: \<^verbatim>\<open>reader.BufferConsumer\<close> is in \<^verbatim>\<open>reader.js\<close>, which is
  not among the sources.  The specification: the cursor wraps a byte sequence and a read
  offset that starts at zero; \<^verbatim>\<open>consume(n)\<close> returns the next \<open>n\<close> bytes and advances
  the offset by \<open>n\<close>, and fails with \<open>ReadError\<close> if fewer than \<open>n\<close> bytes remain.
  Line 182 of \<^verbatim>\<open>main.js\<close> appends the field \<^verbatim>\<open>buffer.buffer\<close> as everything that
  is left, so \<open>buffer\<close> holds the bytes not yet consumed.  The specification says
  nothing of a negative count.
\<close>

record BufferConsumer =
  buffer :: "byte list"
  position :: nat

definition BufferConsumer_new :: "byte list \<Rightarrow> BufferConsumer" where
  "BufferConsumer_new bs = \<lparr>buffer = bs, position = 0\<rparr>"

definition consume :: "int \<Rightarrow> BufferConsumer \<Rightarrow> error + (byte list \<times> BufferConsumer)" where
  \<comment> \<open>Modelled from the spec: \<^verbatim>\<open>consume(n)\<close> of the absent \<^verbatim>\<open>reader.js\<close>\<close>
  "consume n r =
     (if n < 0 then Inl OutsideModel
      else if int (length (buffer r)) < n then Inl ReadError
      else Inr (take (nat n) (buffer r),
                r\<lparr>buffer := drop (nat n) (buffer r), position := position r + nat n\<rparr>))"

fun readInt32LE :: "byte list \<Rightarrow> error + int" where
  \<comment> \<open>\<^verbatim>\<open>Buffer.readInt32LE()\<close> at offset 0: two's complement, lowest byte first\<close>
  "readInt32LE (b0 # b1 # b2 # b3 # bs) =
     Inr (let u = uint b0 + 256 * uint b1 + 65536 * uint b2 + 16777216 * uint b3
          in if 2147483648 \<le> u then u - 4294967296 else u)"
| "readInt32LE bs = Inl RangeError"

text \<open>
  Modelled from the spec: \<^verbatim>\<open>writer.BufferWriter\<close> is in \<^verbatim>\<open>writer.js\<close>, which is not
  among the sources.  The specification: a growable byte buffer, empty at first;
  \<^verbatim>\<open>concat(bytes)\<close> appends a byte slice as it is, \<^verbatim>\<open>writeInt32LE(n)\<close> appends the
  four bytes of a signed 32-bit integer, lowest first, \<^verbatim>\<open>writeAscii(text)\<close> appends one
  byte for each character, with no terminator and no length.  The writer is the buffer
  it has built, \<^verbatim>\<open>out.buffer\<close>.
\<close>

type_synonym BufferWriter = "byte list"

definition int32le :: "int \<Rightarrow> byte list" where
  "int32le n = [word_of_int n, word_of_int (n div 256), word_of_int (n div 65536),
                word_of_int (n div 16777216)]"

definition concat_buf :: "byte list \<Rightarrow> BufferWriter \<Rightarrow> BufferWriter" where
  \<comment> \<open>Modelled from the spec: \<^verbatim>\<open>concat(bytes)\<close> of the absent \<^verbatim>\<open>writer.js\<close>\<close>
  "concat_buf bs out = out @ bs"

definition writeInt32LE :: "int \<Rightarrow> BufferWriter \<Rightarrow> error + BufferWriter" where
  \<comment> \<open>Modelled from the spec: \<^verbatim>\<open>writeInt32LE(n)\<close> of the absent \<^verbatim>\<open>writer.js\<close>, for
      a signed 32-bit integer; the specification says nothing of any other number\<close>
  "writeInt32LE n out =
     (if - 2147483648 \<le> n \<and> n \<le> 2147483647 then Inr (out @ int32le n) else Inl OutsideModel)"

definition writeAscii :: "string \<Rightarrow> BufferWriter \<Rightarrow> BufferWriter" where
  \<comment> \<open>Modelled from the spec: \<^verbatim>\<open>writeAscii(text)\<close> of the absent \<^verbatim>\<open>writer.js\<close>\<close>
  "writeAscii text out = out @ map of_char text"

definition buffer_toString :: "byte list \<Rightarrow> error + string" where
  \<comment> \<open>what \<^verbatim>\<open>imgSource + ".png"\<close> makes of the buffer first: its bytes decoded as
      UTF-8.  ASCII bytes decode to the same characters; a byte from 128 on decodes to
      a character beyond the 8-bit text of this model\<close>
  "buffer_toString bs =
     (if list_all (\<lambda>b. b < 128) bs then Inr (map (\<lambda>b. char_of (unat b)) bs)
      else Inl OutsideModel)"

section \<open>The tilemap header transcoder\<close>

text \<open>
  Lines 117 to 182 of \<^verbatim>\<open>onPresave\<close>.  The cursor \<^verbatim>\<open>buffer\<close> (here \<open>buf\<close>) and
  the writer \<^verbatim>\<open>out\<close> are the state that the two local functions and the two loops
  pass on.
\<close>

type_synonym tstate = "BufferConsumer \<times> BufferWriter"

definition skipString :: "tstate \<Rightarrow> error + tstate" where
  "skipString st =
     (case st of (buf, out) \<Rightarrow>
        bindE (consume 4 buf) (\<lambda>(b4, buf).
        bindE (readInt32LE b4) (\<lambda>skipBytes.
        bindE (writeInt32LE skipBytes out) (\<lambda>out.
        bindE (consume skipBytes buf) (\<lambda>(bs, buf).
        Inr (buf, concat_buf bs out))))))"

definition skipValue :: "byte list \<Rightarrow> tstate \<Rightarrow> error + tstate" where
  \<comment> \<open>the \<^verbatim>\<open>switch (propertyType[0])\<close> of lines 138 to 151; it has no default case\<close>
  "skipValue propertyType st =
     (case st of (buf, out) \<Rightarrow>
        (case propertyType of
           [] \<Rightarrow> Inr (buf, out)
         | t # ts \<Rightarrow>
             if t = 0 then bindE (consume 1 buf) (\<lambda>(bs, buf). Inr (buf, concat_buf bs out))
             else if t = 1 then bindE (consume 4 buf) (\<lambda>(bs, buf). Inr (buf, concat_buf bs out))
             else if t = 2 then bindE (consume 4 buf) (\<lambda>(bs, buf). Inr (buf, concat_buf bs out))
             else if t = 3 then skipString (buf, out)
             else Inr (buf, out)))"

fun skipProperties_loop :: "nat \<Rightarrow> tstate \<Rightarrow> error + tstate" where
  \<comment> \<open>\<^verbatim>\<open>while (numberProperties-- > 0)\<close> with the properties still to copy\<close>
  "skipProperties_loop 0 st = Inr st"
| "skipProperties_loop (Suc n) st =
     bindE (skipString st) (\<lambda>(buf, out).
     bindE (consume 1 buf) (\<lambda>(propertyType, buf).
     bindE (skipValue propertyType (buf, concat_buf propertyType out))
       (skipProperties_loop n)))"

definition skipProperties :: "tstate \<Rightarrow> error + tstate" where
  "skipProperties st =
     (case st of (buf, out) \<Rightarrow>
        bindE (consume 4 buf) (\<lambda>(b4, buf).
        bindE (readInt32LE b4) (\<lambda>numberProperties.
        bindE (writeInt32LE numberProperties out) (\<lambda>out.
        skipProperties_loop (nat numberProperties) (buf, out)))))"

fun tileSheets_loop :: "nat \<Rightarrow> tstate \<Rightarrow> string list \<Rightarrow> error + (tstate \<times> string list)" where
  \<comment> \<open>\<^verbatim>\<open>while (numberTileSheets-- > 0)\<close>, lines 166 to 180\<close>
  "tileSheets_loop 0 st tileSheets = Inr (st, tileSheets)"
| "tileSheets_loop (Suc n) st tileSheets =
     bindE (skipString st) (\<lambda>st.
     bindE (skipString st) (\<lambda>(buf, out).
     bindE (consume 4 buf) (\<lambda>(b4, buf).
     bindE (readInt32LE b4) (\<lambda>strBytes.
     bindE (consume strBytes buf) (\<lambda>(imgSource, buf).
     bindE (buffer_toString imgSource) (\<lambda>imgSource.
       let imgSource = imgSource @ ''.png'' in
       bindE (writeInt32LE (int (length imgSource)) out) (\<lambda>out.
       bindE (consume (4 * 2 * 4) buf) (\<lambda>(bs, buf).
       bindE (skipProperties (buf, concat_buf bs (writeAscii imgSource out))) (\<lambda>st.
       tileSheets_loop n st (tileSheets @ [imgSource]))))))))))"

definition transcode :: "byte list \<Rightarrow> error + (byte list \<times> string list)" where
  \<comment> \<open>from the segment to the bytes of the \<^verbatim>\<open>.tbin\<close> file and \<^verbatim>\<open>tileSheets\<close>\<close>
  "transcode m =
     bindE (consume 6 (BufferConsumer_new m)) (\<lambda>(header, buf).
     bindE (skipString (buf, concat_buf header [])) (\<lambda>st.
     bindE (skipString st) (\<lambda>st.
     bindE (skipProperties st) (\<lambda>(buf, out).
     bindE (consume 4 buf) (\<lambda>(b4, buf).
     bindE (readInt32LE b4) (\<lambda>numberTileSheets.
     bindE (writeInt32LE numberTileSheets out) (\<lambda>out.
     bindE (tileSheets_loop (nat numberTileSheets) (buf, out) []) (\<lambda>((buf, out), tileSheets).
     Inr (concat_buf (buffer buf) out, tileSheets)))))))))"


section \<open>The tilemap segment in the tree\<close>

fun is_tBIN10 :: "jsval \<Rightarrow> error + bool" where
  \<comment> \<open>\<^verbatim>\<open>data.toString('utf8', 0, 6) === "tBIN10"\<close>: a buffer decodes its first six
      bytes, and they give these six ASCII characters only if they are their codes; text
      and arrays ignore the arguments; a number takes the first as a radix and throws;
      there is nothing to call on \<^verbatim>\<open>undefined\<close> and \<^verbatim>\<open>null\<close>; a field mapping
      gives \<^verbatim>\<open>[object Object]\<close>, unless it has a field \<^verbatim>\<open>toString\<close> of its own,
      which is data and cannot be called\<close>
  "is_tBIN10 (Buf bs) = Inr (take 6 bs = map of_char ''tBIN10'')"
| "is_tBIN10 (Str s) = Inr (s = ''tBIN10'')"
| "is_tBIN10 (Arr xs) = Inr (loose_eq_text (Arr xs) ''tBIN10'')"
| "is_tBIN10 (Num n) = Inl RangeError"
| "is_tBIN10 (Bool b) = Inr False"
| "is_tBIN10 (Obj kvs) = (if ''toString'' \<in> set (map fst kvs) then Inl TypeError else Inr False)"
| "is_tBIN10 Undefined = Inl TypeError"
| "is_tBIN10 Null = Inl TypeError"

definition extractMap :: "jsval \<Rightarrow> error + (jsval \<times> jsval)" where
  \<comment> \<open>lines 220 to 227: the value returned (\<open>Null\<close> for \<^verbatim>\<open>null\<close>) and \<^verbatim>\<open>object\<close> as
      it is afterwards\<close>
  "extractMap object =
     bindE (get_prop object ''data'') (\<lambda>d.
     bindE (get_prop d ''data'') (\<lambda>data.
     bindE (is_tBIN10 data) (\<lambda>hit.
       if hit then Inr (data, put_child object ''data'' (delete_prop ''data'' d))
       else Inr (Null, object))))"

section \<open>Paths into the tree\<close>

lemma length_dropWhile_tl: "dropWhile P xs = y # ys \<Longrightarrow> length ys < length xs"
  by (induction xs) (auto split: if_splits)

function split_dot :: "string \<Rightarrow> string list" where
  \<comment> \<open>\<^verbatim>\<open>path.split('.')\<close>\<close>
  "split_dot p =
     takeWhile (\<lambda>c. c \<noteq> CHR ''.'') p #
     (case dropWhile (\<lambda>c. c \<noteq> CHR ''.'') p of [] \<Rightarrow> [] | c # rest \<Rightarrow> split_dot rest)"
  by pat_completeness auto
termination
  by (relation "measure length") (auto simp: length_dropWhile_tl)

fun join_dot :: "string list \<Rightarrow> string" where
  \<comment> \<open>\<^verbatim>\<open>parts.join('.')\<close>\<close>
  "join_dot [] = []"
| "join_dot [s] = s"
| "join_dot (s # ss) = s @ ''.'' @ join_dot ss"

declare split_dot.simps [simp del]

lemma split_dot_last:
  "dropWhile (\<lambda>c. c \<noteq> CHR ''.'') p = [] \<Longrightarrow> split_dot p = [p]"
proof -
  assume a: "dropWhile (\<lambda>c. c \<noteq> CHR ''.'') p = []"
  then have "takeWhile (\<lambda>c. c \<noteq> CHR ''.'') p = p" by simp
  with a show ?thesis by (subst split_dot.simps) (simp only: list.case)
qed

lemma split_dot_more:
  "dropWhile (\<lambda>c. c \<noteq> CHR ''.'') p = c # rest \<Longrightarrow>
   split_dot p = takeWhile (\<lambda>c. c \<noteq> CHR ''.'') p # split_dot rest"
  by (subst split_dot.simps) (simp only: list.case)

lemma split_dot_not_Nil: "split_dot p \<noteq> []"
  by (subst split_dot.simps) simp

lemma join_dot_split_dot: "join_dot (split_dot p) = p"
proof (induction p rule: split_dot.induct)
  case (1 p)
  show ?case
  proof (cases "dropWhile (\<lambda>c. c \<noteq> CHR ''.'') p")
    case Nil
    then show ?thesis by (simp add: split_dot_last)
  next
    case (Cons c rest)
    then have c: "c = CHR ''.''"
      using hd_dropWhile [of "\<lambda>c. c \<noteq> CHR ''.''" p] by force
    obtain s ss where ss: "split_dot rest = s # ss"
      using split_dot_not_Nil [of rest] by (cases "split_dot rest") auto
    have "join_dot (split_dot rest) = rest" using "1" Cons by simp
    then have "takeWhile (\<lambda>c. c \<noteq> CHR ''.'') p @ ''.'' @ join_dot (s # ss) = p"
      using Cons c ss takeWhile_dropWhile_id [of "\<lambda>c. c \<noteq> CHR ''.''" p] by simp
    then show ?thesis using ss by (simp add: split_dot_more [OF Cons])
  qed
qed

lemma length_rest_path: "p \<noteq> [] \<Longrightarrow> length (join_dot (tl (split_dot p))) < length p"
proof (cases "dropWhile (\<lambda>c. c \<noteq> CHR ''.'') p")
  case Nil
  assume "p \<noteq> []"
  then show ?thesis by (simp add: split_dot_last [OF Nil])
next
  case (Cons c rest)
  show ?thesis
    using length_dropWhile_tl [OF Cons]
    by (simp add: split_dot_more [OF Cons] join_dot_split_dot)
qed

lemma size_payload:
  "isTypeObject object \<Longrightarrow> get_prop object ''data'' = Inr payload \<Longrightarrow> size payload < size object"
proof (cases object)
  case (Obj kvs)
  assume "get_prop object ''data'' = Inr payload"
  then show ?thesis using Obj size_own [of kvs "''data''"] by auto
qed auto

text \<open>
  \<^verbatim>\<open>objectWalk(object, path)\<close>, lines 263 to 268, returns a reference to the node it
  reaches, and \<^verbatim>\<open>onPostload\<close> assigns three properties through it.  Here the result is
  the node together with the function that gives the walked tree once the node has been
  changed.  The first argument is the prototype chain of the runtime, as \<open>get_computed\<close>
  takes it.
\<close>

function objectWalk ::
  "(jsval \<Rightarrow> string \<Rightarrow> bool) \<Rightarrow> jsval \<Rightarrow> string \<Rightarrow> error + (jsval \<times> (jsval \<Rightarrow> jsval))" where
  "objectWalk proto object path =
     (if isTypeObject object then
        (case get_prop object ''data'' of
           Inl e \<Rightarrow> Inl e
         | Inr payload \<Rightarrow>
             (case objectWalk proto payload path of
                Inl e \<Rightarrow> Inl e
              | Inr (node, back) \<Rightarrow> Inr (node, \<lambda>n. put_child object ''data'' (back n))))
      else if path = [] then Inr (object, \<lambda>n. n)
      else
        (let parts = split_dot path in
         case get_computed proto object (hd parts) of
           Inl e \<Rightarrow> Inl e
         | Inr child \<Rightarrow>
             (case objectWalk proto child (join_dot (tl parts)) of
                Inl e \<Rightarrow> Inl e
              | Inr (node, back) \<Rightarrow> Inr (node, \<lambda>n. put_child object (hd parts) (back n)))))"
  by pat_completeness auto
termination
  by (relation "measures [\<lambda>(proto, v, p). length p, \<lambda>(proto, v, p). size v]")
     (auto simp: size_payload length_rest_path)

declare objectWalk.simps [simp del]


section \<open>What the passes call outside the repository\<close>

text \<open>
  The \<^verbatim>\<open>path\<close> module, \<^verbatim>\<open>fs.readFileSync\<close>, the image codec (\<^verbatim>\<open>pngjs\<close>) and
  the prototypes of the runtime (\<open>proto_has\<close>, see \<open>get_computed\<close>) are not part of
  the repository; the passes take them as they come.  \<open>png_write\<close> stands
  for \<^verbatim>\<open>new PNG({width, height, inputHasAlpha: true})\<close>, the assignment of
  \<^verbatim>\<open>png.data\<close> and \<^verbatim>\<open>PNG.sync.write(png)\<close>, applied to the width, the height and the
  data of a placeholder; \<open>png_read\<close> stands for \<^verbatim>\<open>PNG.sync.read\<close>.  Files written
  with \<^verbatim>\<open>fs.writeFileSync\<close> are returned as a list of names and contents, in the
  order of the calls.
\<close>

record png =
  png_width :: int
  png_height :: int
  png_data :: "byte list"

record node_env =
  path_extname :: "string \<Rightarrow> string"
  path_dirname :: "string \<Rightarrow> string"
  path_basename :: "string \<Rightarrow> string \<Rightarrow> string"
  path_join :: "string \<Rightarrow> string \<Rightarrow> string"
  readFileSync :: "string \<Rightarrow> error + byte list"
  png_write :: "jsval \<Rightarrow> jsval \<Rightarrow> jsval \<Rightarrow> error + byte list"
  png_read :: "byte list \<Rightarrow> error + png"
  proto_has :: "jsval \<Rightarrow> string \<Rightarrow> bool"

definition getImageName :: "node_env \<Rightarrow> string \<Rightarrow> string \<Rightarrow> string" where
  \<comment> \<open>lines 106 to 109\<close>
  "getImageName E baseFile contentPath =
     (let ext = path_extname E baseFile
      in path_join E (path_dirname E baseFile)
           (path_basename E baseFile ext @ ''.'' @ contentPath @ ''.png''))"

fun as_text :: "jsval \<Rightarrow> error + string" where
  \<comment> \<open>a placeholder's \<^verbatim>\<open>path\<close> where text is needed: the conversion of any other
      value to text is not modelled\<close>
  "as_text (Str s) = Inr s"
| "as_text v = Inl OutsideModel"

section \<open>The extraction pass\<close>

definition presave_map ::
  "node_env \<Rightarrow> string \<Rightarrow> jsval \<Rightarrow> jsval \<Rightarrow> error + (jsval \<times> (string \<times> byte list) list)" where
  \<comment> \<open>the body of \<^verbatim>\<open>if (map != null)\<close>, lines 114 to 188; the cursor is described for
      a byte sequence only\<close>
  "presave_map E outputFile m data =
     (case m of
        Buf bytes \<Rightarrow>
          bindE (transcode bytes) (\<lambda>(out, tileSheets).
            let ext = path_extname E outputFile;
                filePath = path_join E (path_dirname E outputFile)
                             (path_basename E outputFile ext @ ''.tbin'')
            in
            bindE (get_prop data ''content'') (\<lambda>content.
            bindE (get_prop content ''data'') (\<lambda>d.
            bindE (set_prop d ''tileSheets'' (Arr (map Str tileSheets))) (\<lambda>d.
            Inr (put_child data ''content'' (put_child content ''data'' d),
                 [(filePath, out)])))))
      | _ \<Rightarrow> Inl OutsideModel)"

fun writeImages ::
  "node_env \<Rightarrow> string \<Rightarrow> jsval list \<Rightarrow> error + (jsval list \<times> (string \<times> byte list) list)" where
  \<comment> \<open>the loop of lines 193 to 211: the placeholders as they are afterwards and the
      files written\<close>
  "writeImages E outputFile [] = Inr ([], [])"
| "writeImages E outputFile (img # images) =
     bindE (get_prop img ''path'') (\<lambda>p.
     bindE (as_text p) (\<lambda>p.
     bindE (get_prop img ''width'') (\<lambda>w.
     bindE (get_prop img ''height'') (\<lambda>h.
     bindE (get_prop img ''data'') (\<lambda>d.
     bindE (png_write E w h d) (\<lambda>encoded.
       let filename = getImageName E outputFile p;
           img = delete_prop ''height'' (delete_prop ''width'' (delete_prop ''data'' img))
       in
       bindE (writeImages E outputFile images) (\<lambda>(images, written).
       Inr (img # images, (filename, encoded) # written))))))))"

definition presave_images ::
  "node_env \<Rightarrow> string \<Rightarrow> jsval \<Rightarrow> error + (jsval \<times> (string \<times> byte list) list)" where
  \<comment> \<open>lines 191 to 217\<close>
  "presave_images E outputFile data =
     bindE (get_prop data ''content'') (\<lambda>content.
     bindE (extractImages content []) (\<lambda>(images, content).
     bindE (writeImages E outputFile images) (\<lambda>(images, written).
     bindE (if images \<noteq> []
            then set_prop (put_child data ''content'' content) ''extractedImages'' (Arr images)
            else Inr (put_child data ''content'' content)) (\<lambda>data.
     Inr (data, written)))))"

definition onPresave ::
  "node_env \<Rightarrow> string \<Rightarrow> jsval \<Rightarrow> error + (jsval \<times> (string \<times> byte list) list)" where
  \<comment> \<open>lines 111 to 218: \<^verbatim>\<open>data\<close> as returned and the files written\<close>
  "onPresave E outputFile data =
     bindE (get_prop data ''content'') (\<lambda>content.
     bindE (extractMap content) (\<lambda>(m, content).
     bindE (if m \<noteq> Null
            then presave_map E outputFile m (put_child data ''content'' content)
            else Inr (put_child data ''content'' content, [])) (\<lambda>(data, written).
     bindE (presave_images E outputFile data) (\<lambda>(data, written').
     Inr (data, written @ written')))))"

section \<open>The reinjection pass\<close>

fun reinject :: "node_env \<Rightarrow> string \<Rightarrow> jsval list \<Rightarrow> jsval \<Rightarrow> error + jsval" where
  \<comment> \<open>the loop of lines 274 to 285 over the elements of an array \<^verbatim>\<open>images\<close>\<close>
  "reinject E inputFile [] data = Inr data"
| "reinject E inputFile (img # images) data =
     bindE (get_prop img ''path'') (\<lambda>p.
     bindE (as_text p) (\<lambda>p.
     bindE (readFileSync E (getImageName E inputFile p)) (\<lambda>pngBuffer.
     bindE (png_read E pngBuffer) (\<lambda>png.
     bindE (get_prop data ''content'') (\<lambda>content.
     bindE (objectWalk (proto_has E) content p) (\<lambda>(container, back).
     bindE (set_prop container ''data'' (Buf (png_data png))) (\<lambda>container.
     bindE (set_prop container ''width'' (Num (png_width png))) (\<lambda>container.
     bindE (set_prop container ''height'' (Num (png_height png))) (\<lambda>container.
     reinject E inputFile images (put_child data ''content'' (back container)))))))))))"

definition onPostload :: "node_env \<Rightarrow> string \<Rightarrow> jsval \<Rightarrow> error + jsval" where
  \<comment> \<open>lines 270 to 288.  A value \<^verbatim>\<open>images\<close> that is truthy and no array: with no
      \<^verbatim>\<open>length\<close> the loop does not run; text and buffers have elements without a
      \<^verbatim>\<open>path\<close>, which would be converted to text\<close>
  "onPostload E inputFile data =
     bindE (get_prop data ''extractedImages'') (\<lambda>images.
       if falsy images then Inr data
       else (case images of
               Arr xs \<Rightarrow> reinject E inputFile xs data
             | Obj kvs \<Rightarrow> if ''length'' \<in> set (map fst kvs) then Inl OutsideModel else Inr data
             | Str s \<Rightarrow> Inl OutsideModel
             | Buf bs \<Rightarrow> if bs = [] then Inr data else Inl OutsideModel
             | _ \<Rightarrow> Inr data))"


section \<open>The batch driver\<close>

text \<open>
  A job is one of \<^verbatim>\<open>extractXnb\<close> and \<^verbatim>\<open>packXnb\<close>, or any other function of an input
  and an output name.  It runs in a world \<open>'w\<close> (the files, the console) and leaves the
  world it has changed; it returns (\<open>None\<close>) or throws (\<open>Some e\<close>).  The value a job
  returns is never used.
\<close>

type_synonym 'w job = "string \<Rightarrow> string \<Rightarrow> 'w \<Rightarrow> error option \<times> 'w"

definition readErrorWrapper :: "'w job \<Rightarrow> 'w job" where
  \<comment> \<open>lines 57 to 69\<close>
  "readErrorWrapper fn = (\<lambda>a b w.
     case fn a b w of
       (None, w') \<Rightarrow> (None, w')
     | (Some e, w') \<Rightarrow> if e = ReadError then (None, w') else (Some e, w'))"

record stats =
  isFile :: bool
  isDirectory :: bool

text \<open>
  \<^verbatim>\<open>fs.statSync\<close>, the events of the directory walker (\<^verbatim>\<open>walk.walk\<close>: for every file
  its directory \<^verbatim>\<open>root\<close> and its name \<^verbatim>\<open>fileStats.name\<close>, taken as the list that the
  walk delivers), \<^verbatim>\<open>console.log\<close> and the option \<^verbatim>\<open>program.quiet\<close>.
\<close>

record 'w host =
  statSync :: "string \<Rightarrow> 'w \<Rightarrow> error + stats"
  walk_files :: "string \<Rightarrow> 'w \<Rightarrow> (string \<times> string) list"
  console_log :: "string \<Rightarrow> 'w \<Rightarrow> 'w"
  quiet :: bool

definition lower_char :: "char \<Rightarrow> char" where
  "lower_char c =
     (let k = (of_char c :: nat)
      in if (65 \<le> k \<and> k \<le> 90) \<or> (192 \<le> k \<and> k \<le> 222 \<and> k \<noteq> 215) then char_of (k + 32) else c)"

definition toLowerCase :: "string \<Rightarrow> string" where
  "toLowerCase s = map lower_char s"

fun find_first :: "string \<Rightarrow> string \<Rightarrow> (string \<times> string) option" where
  \<comment> \<open>the text before and after the first place where \<open>pat\<close> stands in the text\<close>
  "find_first pat [] = (if pat = [] then Some ([], []) else None)"
| "find_first pat (c # cs) =
     (if take (length pat) (c # cs) = pat then Some ([], drop (length pat) (c # cs))
      else (case find_first pat cs of None \<Rightarrow> None | Some (b, a) \<Rightarrow> Some (c # b, a)))"

fun substitution :: "string \<Rightarrow> string \<Rightarrow> string \<Rightarrow> string \<Rightarrow> string" where
  \<comment> \<open>the replacement text of \<^verbatim>\<open>String.prototype.replace\<close> for a text pattern: a dollar
      sign followed by a dollar sign, an ampersand, a backquote or a quote stands for a
      dollar sign, the match, the text before it and the text after it\<close>
  "substitution m b a [] = []"
| "substitution m b a [c] = [c]"
| "substitution m b a (c # d # r) =
     (if c = CHR ''$'' \<and> d = CHR ''$'' then CHR ''$'' # substitution m b a r
      else if c = CHR ''$'' \<and> d = CHR ''&'' then m @ substitution m b a r
      else if c = CHR ''$'' \<and> d = CHR 0x60 then b @ substitution m b a r
      else if c = CHR ''$'' \<and> d = CHR 0x27 then a @ substitution m b a r
      else c # substitution m b a (d # r))"

definition replace :: "string \<Rightarrow> string \<Rightarrow> string \<Rightarrow> string" where
  \<comment> \<open>\<^verbatim>\<open>text.replace(pat, rep)\<close> with a text pattern: the first match only\<close>
  "replace text pat rep =
     (case find_first pat text of
        None \<Rightarrow> text
      | Some (b, a) \<Rightarrow> b @ substitution pat b a rep @ a)"

fun walk_loop ::
  "node_env \<Rightarrow> 'w host \<Rightarrow> 'w job \<Rightarrow> string \<Rightarrow> string \<Rightarrow> (string \<times> string) list \<Rightarrow> 'w \<Rightarrow> error option \<times> 'w" where
  \<comment> \<open>the handler of lines 89 to 102, once for every file of the walk; an exception
      leaves the handler before \<^verbatim>\<open>next()\<close>\<close>
  "walk_loop E H fn input output [] w = (None, w)"
| "walk_loop E H fn input output ((root, name) # files) w =
     (let ext = toLowerCase (path_extname E name) in
      if ext \<noteq> ''.xnb'' \<and> ext \<noteq> ''.yaml'' then walk_loop E H fn input output files w
      else
        let targetDir = replace root input output;
            sourceFile = path_join E root name;
            w = (if \<not> quiet H then console_log H sourceFile w else w);
            targetExt = (if ext = ''.xnb'' then ''.yaml'' else ''.xnb'');
            targetFile = path_join E targetDir (path_basename E name ext @ targetExt)
        in (case fn sourceFile targetFile w of
              (Some e, w) \<Rightarrow> (Some e, w)
            | (None, w) \<Rightarrow> walk_loop E H fn input output files w))"

definition applyOrRecurse ::
  "node_env \<Rightarrow> 'w host \<Rightarrow> 'w job \<Rightarrow> string \<Rightarrow> string \<Rightarrow> 'w \<Rightarrow> error option \<times> 'w" where
  \<comment> \<open>lines 71 to 104\<close>
  "applyOrRecurse E H fn input output w =
     (let fn = readErrorWrapper fn in
      case statSync H input w of
        Inl e \<Rightarrow>
          if e = SystemError ''ENOENT''
          then (None, console_log H
                  (''The file or directory '' @ [CHR 0x22] @ input @ [CHR 0x22] @ '' was not found.'') w)
          else (Some e, w)
      | Inr st \<Rightarrow>
          if isFile st then fn input output w
          else if isDirectory st then walk_loop E H fn input output (walk_files H input w) w
          else (None, w))"

section \<open>An environment to run the passes in\<close>

text \<open>
  A small instance of what the passes call outside the repository, used where a
  statement is evaluated at a concrete input: names are split at the last slash and the
  last dot and joined with a slash, a file is looked up in a list of names and contents,
  an image is stored as its width, its height and its pixels, and the inherited
  properties are those of \<^verbatim>\<open>Object.prototype\<close>.
\<close>

definition base_of :: "string \<Rightarrow> string" where
  "base_of p = rev (takeWhile (\<lambda>c. c \<noteq> CHR ''/'') (rev p))"

definition sample_extname :: "string \<Rightarrow> string" where
  "sample_extname p =
     (let b = base_of p; e = rev (takeWhile (\<lambda>c. c \<noteq> CHR ''.'') (rev b))
      in if CHR ''.'' \<notin> set b \<or> Suc (length e) = length b then [] else CHR ''.'' # e)"

definition sample_dirname :: "string \<Rightarrow> string" where
  "sample_dirname p =
     (let d = rev (drop 1 (dropWhile (\<lambda>c. c \<noteq> CHR ''/'') (rev p)))
      in if d = [] then ''.'' else d)"

definition sample_basename :: "string \<Rightarrow> string \<Rightarrow> string" where
  "sample_basename p ext =
     (let b = base_of p
      in if ext \<noteq> [] \<and> length ext < length b \<and> drop (length b - length ext) b = ext
         then take (length b - length ext) b else b)"

definition sample_read :: "(string \<times> byte list) list \<Rightarrow> string \<Rightarrow> error + byte list" where
  "sample_read files name =
     (case map_of files name of None \<Rightarrow> Inl (SystemError ''ENOENT'') | Some bytes \<Rightarrow> Inr bytes)"

fun sample_png_write :: "jsval \<Rightarrow> jsval \<Rightarrow> jsval \<Rightarrow> error + byte list" where
  "sample_png_write (Num w) (Num h) (Buf px) =
     (if 0 \<le> w \<and> 0 \<le> h \<and> int (length px) = 4 * w * h then Inr (int32le w @ int32le h @ px)
      else Inl CodecError)"
| "sample_png_write w h d = Inl CodecError"

definition sample_png_read :: "byte list \<Rightarrow> error + png" where
  "sample_png_read bytes =
     (case (readInt32LE bytes, readInt32LE (drop 4 bytes)) of
        (Inr w, Inr h) \<Rightarrow>
          if 0 \<le> w \<and> 0 \<le> h \<and> int (length bytes) = 8 + 4 * w * h
          then Inr \<lparr>png_width = w, png_height = h, png_data = drop 8 bytes\<rparr>
          else Inl CodecError
      | _ \<Rightarrow> Inl CodecError)"

definition sample_proto_has :: "jsval \<Rightarrow> string \<Rightarrow> bool" where
  \<comment> \<open>the properties that every object inherits from \<^verbatim>\<open>Object.prototype\<close>\<close>
  "sample_proto_has v k =
     (k \<in> set [''constructor'', ''__proto__'', ''hasOwnProperty'', ''isPrototypeOf'',
                ''propertyIsEnumerable'', ''toLocaleString'', ''toString'', ''valueOf'',
                ''__defineGetter__'', ''__defineSetter__'', ''__lookupGetter__'',
                ''__lookupSetter__''])"

definition sample_env :: "(string \<times> byte list) list \<Rightarrow> node_env" where
  "sample_env files =
     \<lparr>path_extname = sample_extname, path_dirname = sample_dirname,
      path_basename = sample_basename, path_join = (\<lambda>a b. a @ ''/'' @ b),
      readFileSync = sample_read files,
      png_write = sample_png_write, png_read = sample_png_read,
      proto_has = sample_proto_has\<rparr>"


definition sample_host :: "(string list) host" where
  \<comment> \<open>a directory with three files; the world is the list of what was logged and made\<close>
  "sample_host =
     \<lparr>statSync = (\<lambda>p w. Inr \<lparr>isFile = False, isDirectory = True\<rparr>),
      walk_files = (\<lambda>p w. [(''in'', ''bad.xnb''), (''in'', ''notes.txt''), (''in'', ''good.xnb'')]),
      console_log = (\<lambda>line w. w @ [line]),
      quiet = False\<rparr>"

definition sample_job :: "(string list) job" where
  \<comment> \<open>a job that fails with \<open>ReadError\<close> on one file and records its target otherwise\<close>
  "sample_job a b w = (if a = ''in/bad.xnb'' then (Some ReadError, w) else (None, w @ [b]))"

definition sample_texture :: jsval where
  \<comment> \<open>a \<^verbatim>\<open>Texture2D\<close> node of width 2 and height 1 with 8 bytes of pixel data\<close>
  "sample_texture =
     Obj [(''type'', Str ''Texture2D''),
          (''data'', Obj [(''format'', Num 0), (''width'', Num 2), (''height'', Num 1),
                          (''data'', Buf [255, 0, 0, 255, 0, 255, 0, 255])])]"

section \<open>Notions used in the statements\<close>

definition is_placeholder :: "jsval \<Rightarrow> bool" where
  \<comment> \<open>the object that line 236 pushes\<close>
  "is_placeholder v =
     (\<exists>d w h p. v = Obj [(''data'', d), (''width'', w), (''height'', h), (''path'', Str p)])"

text \<open>
  The node that a path addresses, if there is one: the path is read as
  \<^verbatim>\<open>objectWalk\<close> reads it, through tagged nodes, and every segment has to name a field
  that the mapping has or an index within the array.
\<close>

fun child :: "jsval \<Rightarrow> string \<Rightarrow> jsval option" where
  "child (Obj kvs) k = map_of kvs k"
| "child (Arr xs) k = elem xs k"
| "child v k = None"

lemma size_child: "child v k = Some c \<Longrightarrow> size c < size v"
proof (cases v)
  case (Obj kvs)
  assume "child v k = Some c"
  then show ?thesis using Obj size_own [of kvs k] by (simp add: own_def)
next
  case (Arr xs)
  assume "child v k = Some c"
  then obtain i where "i < length xs" and "c = xs ! i"
    using Arr by (auto simp: elem_def split: if_splits option.splits)
  then have "size c \<le> size_list size xs"
    by (metis nth_mem size_list_estimation' order_refl)
  then show ?thesis using Arr by simp
qed auto

function resolve :: "jsval \<Rightarrow> string \<Rightarrow> jsval option" where
  "resolve object path =
     (if isTypeObject object then
        (case child object ''data'' of None \<Rightarrow> None | Some payload \<Rightarrow> resolve payload path)
      else if path = [] then Some object
      else
        (let parts = split_dot path in
         case child object (hd parts) of
           None \<Rightarrow> None
         | Some c \<Rightarrow> resolve c (join_dot (tl parts))))"
  by pat_completeness auto
termination
  by (relation "measures [\<lambda>(v, p). length p, \<lambda>(v, p). size v]")
     (auto simp: size_child length_rest_path)

declare resolve.simps [simp del]






definition sample_segment :: "byte list" where
  \<comment> \<open>the minimal tilemap segment with one tileset whose image source is \<^verbatim>\<open>tiles\<close>\<close>
  "sample_segment =
     map of_char ''tBIN10'' @ int32le 0 @ int32le 0 @ int32le 0 @ int32le 1 @
     int32le 1 @ map of_char ''t'' @ int32le 0 @ int32le 5 @ map of_char ''tiles'' @
     replicate 32 7 @ int32le 0 @ [1, 2, 3]"

section \<open>Facts about the traversal\<close>

lemma get_prop_Inr: "v \<noteq> Undefined \<Longrightarrow> v \<noteq> Null \<Longrightarrow> \<exists>x. get_prop v k = Inr x"
  by (cases v) auto

lemma dec_0: "dec 0 = ''0''"
  by code_simp

text \<open>
  C10.  The traversal never goes into the payload of a node that it takes for a
  \<^verbatim>\<open>Texture2D\<close> node.  Whatever the payload holds, and so whatever \<^verbatim>\<open>Texture2D\<close>
  nodes are nested in it, the node gives exactly one placeholder, the one of the node
  itself with the path of the node, and the payload only loses its own \<^verbatim>\<open>data\<close>,
  \<^verbatim>\<open>width\<close> and \<^verbatim>\<open>height\<close>: every other field stays as it was, nested nodes with
  their pixel data included.  (A payload that is \<^verbatim>\<open>undefined\<close> or \<^verbatim>\<open>null\<close> has no
  fields to read and the traversal throws.)
\<close>

theorem extractImages_Texture2D_outermost_only:
  assumes "isTypeObject (Obj kvs)"
    and "loose_eq_text (own kvs ''type'') ''Texture2D''"
    and "own kvs ''data'' \<noteq> Undefined" and "own kvs ''data'' \<noteq> Null"
  shows "\<exists>d w h.
      get_prop (own kvs ''data'') ''data'' = Inr d \<and>
      get_prop (own kvs ''data'') ''width'' = Inr w \<and>
      get_prop (own kvs ''data'') ''height'' = Inr h \<and>
      extractImages (Obj kvs) path =
        Inr ([Obj [(''data'', d), (''width'', w), (''height'', h), (''path'', Str path)]],
             Obj (AList.update ''data''
                    (delete_prop ''height'' (delete_prop ''width''
                       (delete_prop ''data'' (own kvs ''data''))))
                    kvs))"
proof -
  obtain d where d: "get_prop (own kvs ''data'') ''data'' = Inr d"
    using get_prop_Inr [OF assms(3,4)] by blast
  obtain w where w: "get_prop (own kvs ''data'') ''width'' = Inr w"
    using get_prop_Inr [OF assms(3,4)] by blast
  obtain h where h: "get_prop (own kvs ''data'') ''height'' = Inr h"
    using get_prop_Inr [OF assms(3,4)] by blast
  show ?thesis
    using assms(1,2) d w h by (simp add: bindE_def Let_def)
qed

text \<open>
  The statement at a node whose payload holds a second \<^verbatim>\<open>Texture2D\<close> node under the
  key \<^verbatim>\<open>mip\<close>: one placeholder, and the inner node keeps its data.
\<close>

theorem extractImages_Texture2D_outermost_only_witness:
  "isTypeObject (Obj [(''type'', Str ''Texture2D''),
       (''data'', Obj [(''width'', Num 2), (''height'', Num 1), (''data'', Buf [1, 2]),
          (''mip'', Obj [(''type'', Str ''Texture2D''),
                         (''data'', Obj [(''width'', Num 1), (''height'', Num 1), (''data'', Buf [3])])])])]) \<and>
   extractImages (Obj [(''type'', Str ''Texture2D''),
       (''data'', Obj [(''width'', Num 2), (''height'', Num 1), (''data'', Buf [1, 2]),
          (''mip'', Obj [(''type'', Str ''Texture2D''),
                         (''data'', Obj [(''width'', Num 1), (''height'', Num 1), (''data'', Buf [3])])])])]) ''a''
   = Inr ([Obj [(''data'', Buf [1, 2]), (''width'', Num 2), (''height'', Num 1), (''path'', Str ''a'')]],
          Obj [(''type'', Str ''Texture2D''),
               (''data'', Obj [(''mip'', Obj [(''type'', Str ''Texture2D''),
                         (''data'', Obj [(''width'', Num 1), (''height'', Num 1), (''data'', Buf [3])])])])])"
  using extractImages_Texture2D_outermost_only
    [of "[(''type'', Str ''Texture2D''),
       (''data'', Obj [(''width'', Num 2), (''height'', Num 1), (''data'', Buf [1, 2]),
          (''mip'', Obj [(''type'', Str ''Texture2D''),
                         (''data'', Obj [(''width'', Num 1), (''height'', Num 1), (''data'', Buf [3])])])])]" "''a''"]
  by (simp add: own_def)

subsection \<open>The segments of a path\<close>

lemma digit_val_digit: "d < 10 \<Longrightarrow> digit_val (char_of (48 + d)) = Some d"
  by (simp add: digit_val_def Let_def)

lemma digits_val_snoc:
  "digits_val acc (cs @ [c]) =
     (case digits_val acc cs of
        None \<Rightarrow> None
      | Some a \<Rightarrow> (case digit_val c of None \<Rightarrow> None | Some d \<Rightarrow> Some (10 * a + d)))"
  by (induction cs arbitrary: acc) (auto split: option.splits)

lemma digits_val_dec: "digits_val 0 (dec n) = Some n"
proof (induction n rule: dec.induct)
  case (1 n)
  show ?case
  proof (cases "n < 10")
    case True
    then show ?thesis by (subst dec.simps) (simp add: digit_val_digit)
  next
    case False
    then have "digits_val 0 (dec (n div 10)) = Some (n div 10)" using "1.IH" by simp
    moreover have "digit_val (char_of (48 + n mod 10)) = Some (n mod 10)"
      by (rule digit_val_digit) simp
    ultimately show ?thesis using False
      by (subst dec.simps) (simp add: digits_val_snoc)
  qed
qed

lemma dec_not_Nil: "dec n \<noteq> []"
  by (subst dec.simps) simp

lemma hd_dec: "0 < n \<Longrightarrow> hd (dec n) \<noteq> CHR ''0''"
proof (induction n rule: dec.induct)
  case (1 n)
  show ?case
  proof (cases "n < 10")
    case True
    have "char_of (48 + n) = CHR ''0'' \<longleftrightarrow> n = 0"
      using True by (simp add: char_of_eq_iff take_bit_eq_mod)
    with True "1.prems" show ?thesis by (subst dec.simps) simp
  next
    case False
    then have "hd (dec (n div 10)) \<noteq> CHR ''0''" using "1.IH" by simp
    with False show ?thesis by (subst dec.simps) (simp add: dec_not_Nil)
  qed
qed

lemma parse_index_dec: "parse_index (dec n) = Some n"
proof (cases "n = 0")
  case True
  then show ?thesis by (simp add: parse_index_def digit_val_def dec_0)
next
  case False
  then have "hd (dec n) \<noteq> CHR ''0''" by (simp add: hd_dec)
  then show ?thesis by (simp add: parse_index_def dec_not_Nil digits_val_dec)
qed

lemma extractImages_elems_paths:
  "extractImages_elems xs i q = Inr (images, xs') \<Longrightarrow>
   \<exists>parts. images = concat parts \<and> length parts = length xs \<and> length xs' = length xs \<and>
     (\<forall>j<length xs. extractImages (xs ! j) (q @ dec (i + j)) = Inr (parts ! j, xs' ! j))"
proof (induction xs arbitrary: i images xs')
  case Nil
  then show ?case by simp
next
  case (Cons x xs)
  from Cons.prems obtain im1 x' im2 xs2 where
    a: "extractImages x (q @ dec i) = Inr (im1, x')"
    and b: "extractImages_elems xs (Suc i) q = Inr (im2, xs2)"
    and c: "images = im1 @ im2" "xs' = x' # xs2"
    by (auto split: sum.splits prod.splits)
  from Cons.IH [OF b] obtain parts where
    p: "im2 = concat parts" "length parts = length xs" "length xs2 = length xs"
      "\<forall>j<length xs. extractImages (xs ! j) (q @ dec (Suc i + j)) = Inr (parts ! j, xs2 ! j)"
    by blast
  have "\<forall>j<length (x # xs).
      extractImages ((x # xs) ! j) (q @ dec (i + j)) = Inr ((im1 # parts) ! j, (x' # xs2) ! j)"
  proof (intro allI impI)
    fix j assume "j < length (x # xs)"
    then show "extractImages ((x # xs) ! j) (q @ dec (i + j)) = Inr ((im1 # parts) ! j, (x' # xs2) ! j)"
      using a p(4) by (cases j) simp_all
  qed
  with c p(1-3) have "images = concat (im1 # parts) \<and> length (im1 # parts) = length (x # xs) \<and>
      length xs' = length (x # xs) \<and>
      (\<forall>j<length (x # xs).
         extractImages ((x # xs) ! j) (q @ dec (i + j)) = Inr ((im1 # parts) ! j, xs' ! j))"
    by simp
  then show ?case by blast
qed

lemma extractImages_fields_paths:
  "extractImages_fields kvs q = Inr (images, kvs') \<Longrightarrow>
   \<exists>parts. images = concat parts \<and> length parts = length kvs \<and> map fst kvs' = map fst kvs \<and>
     (\<forall>j<length kvs.
        extractImages (snd (kvs ! j)) (q @ fst (kvs ! j)) = Inr (parts ! j, snd (kvs' ! j)))"
proof (induction kvs arbitrary: images kvs')
  case Nil
  then show ?case by simp
next
  case (Cons kv kvs)
  obtain k v where kv: "kv = (k, v)" by (cases kv)
  from Cons.prems obtain im1 v' im2 kvs2 where
    a: "extractImages v (q @ k) = Inr (im1, v')"
    and b: "extractImages_fields kvs q = Inr (im2, kvs2)"
    and c: "images = im1 @ im2" "kvs' = (k, v') # kvs2"
    by (auto simp: kv split: sum.splits prod.splits)
  from Cons.IH [OF b] obtain parts where
    p: "im2 = concat parts" "length parts = length kvs" "map fst kvs2 = map fst kvs"
      "\<forall>j<length kvs.
         extractImages (snd (kvs ! j)) (q @ fst (kvs ! j)) = Inr (parts ! j, snd (kvs2 ! j))"
    by blast
  have "\<forall>j<length (kv # kvs).
      extractImages (snd ((kv # kvs) ! j)) (q @ fst ((kv # kvs) ! j))
        = Inr ((im1 # parts) ! j, snd (((k, v') # kvs2) ! j))"
  proof (intro allI impI)
    fix j assume "j < length (kv # kvs)"
    then show "extractImages (snd ((kv # kvs) ! j)) (q @ fst ((kv # kvs) ! j))
        = Inr ((im1 # parts) ! j, snd (((k, v') # kvs2) ! j))"
      using a p(4) by (cases j) (simp_all add: kv)
  qed
  with c p(1-3) have "images = concat (im1 # parts) \<and> length (im1 # parts) = length (kv # kvs) \<and>
      map fst kvs' = map fst (kv # kvs) \<and>
      (\<forall>j<length (kv # kvs).
         extractImages (snd ((kv # kvs) ! j)) (q @ fst ((kv # kvs) ! j))
           = Inr ((im1 # parts) ! j, snd (kvs' ! j)))"
    by (simp add: kv)
  then show ?case by blast
qed

lemma dec_examples:
  "dec 0 = ''0''" "dec 1 = ''1''" "dec 7 = ''7''" "dec 10 = ''10''" "dec 123 = ''123''"
  by code_simp+

text \<open>
  C4.  Paths are tag-transparent, and a field name or an index is set off by a dot only
  when there is a path before it.
  \<^item> A tagged node whose tag \<open>t\<close> is not \<^verbatim>\<open>Texture2D\<close> is walked through its payload
    with the very path the node was reached by, whatever the payload is.
  \<^item> When the traversal of an array reached by the path \<open>p\<close> returns, every element
    \<open>j\<close> has been traversed with the path made of \<open>p\<close> and a dot, if \<open>p\<close> is not empty,
    and the index \<open>j\<close> in decimal; the placeholders are those of the elements, in order.
  \<^item> When the traversal of a field mapping that is no tagged node returns, every field
    has been traversed with the path made of \<open>p\<close> and a dot, if \<open>p\<close> is not empty, and
    the name of the field; the placeholders are those of the fields, in order.
  \<^item> The index is the decimal numeral: it is read back as the number it stands for.
  \<^item> In the tree \<^verbatim>\<open>{type: "T", data: {items: [{type: "Texture2D", data: {...}}]}}\<close>,
    whatever the fields of the texture, the path recorded for the texture is
    \<^verbatim>\<open>items.0\<close> (after a path \<open>p\<close> that is not empty: \<open>p\<close>, a dot and \<^verbatim>\<open>items.0\<close>);
    as the second element of \<^verbatim>\<open>items\<close> it is \<^verbatim>\<open>items.1\<close>.
\<close>

theorem extractImages_path_tag_transparent:
  assumes "t \<noteq> ''Texture2D''"
  shows "extractImages (Obj [(''type'', Str t), (''data'', v)]) p
       = (case extractImages v p of
            Inl e \<Rightarrow> Inl e
          | Inr (images, v') \<Rightarrow> Inr (images, Obj [(''type'', Str t), (''data'', v')]))
     \<and> (extractImages (Arr xs) p = Inr (images, w) \<longrightarrow>
          (\<exists>parts xs'. w = Arr xs' \<and> images = concat parts \<and>
             length parts = length xs \<and> length xs' = length xs \<and>
             (\<forall>j<length xs.
                extractImages (xs ! j) ((if p = [] then [] else p @ ''.'') @ dec j)
                  = Inr (parts ! j, xs' ! j))))
     \<and> (\<not> isTypeObject (Obj fs) \<and> extractImages (Obj fs) p = Inr (images, w) \<longrightarrow>
          (\<exists>parts fs'. w = Obj fs' \<and> images = concat parts \<and>
             length parts = length fs \<and> map fst fs' = map fst fs \<and>
             (\<forall>j<length fs.
                extractImages (snd (fs ! j)) ((if p = [] then [] else p @ ''.'') @ fst (fs ! j))
                  = Inr (parts ! j, snd (fs' ! j)))))
     \<and> parse_index (dec n) = Some n
     \<and> dec 0 = ''0'' \<and> dec 1 = ''1'' \<and> dec 7 = ''7'' \<and> dec 10 = ''10'' \<and> dec 123 = ''123''
     \<and> extractImages
         (Obj [(''type'', Str ''T''),
               (''data'', Obj [(''items'', Arr [Obj [(''type'', Str ''Texture2D''), (''data'', Obj kvs)]])])]) p
       = Inr ([Obj [(''data'', own kvs ''data''), (''width'', own kvs ''width''),
                    (''height'', own kvs ''height''),
                    (''path'', Str ((if p = [] then [] else p @ ''.'') @ ''items.0''))]],
              Obj [(''type'', Str ''T''),
                   (''data'', Obj [(''items'', Arr [Obj [(''type'', Str ''Texture2D''),
                       (''data'', Obj (AList.delete ''height'' (AList.delete ''width''
                          (AList.delete ''data'' kvs))))]])])])
     \<and> extractImages
         (Obj [(''type'', Str ''T''),
               (''data'', Obj [(''items'',
                  Arr [Num 7, Obj [(''type'', Str ''Texture2D''), (''data'', Obj kvs)]])])]) p
       = Inr ([Obj [(''data'', own kvs ''data''), (''width'', own kvs ''width''),
                    (''height'', own kvs ''height''),
                    (''path'', Str ((if p = [] then [] else p @ ''.'') @ ''items.1''))]],
              Obj [(''type'', Str ''T''),
                   (''data'', Obj [(''items'', Arr [Num 7, Obj [(''type'', Str ''Texture2D''),
                       (''data'', Obj (AList.delete ''height'' (AList.delete ''width''
                          (AList.delete ''data'' kvs))))]])])])"
proof -
  have wrap: "extractImages (Obj [(''type'', Str t), (''data'', v)]) p
       = (case extractImages v p of
            Inl e \<Rightarrow> Inl e
          | Inr (images, v') \<Rightarrow> Inr (images, Obj [(''type'', Str t), (''data'', v')]))"
    using assms by (auto simp: own_def split: sum.splits)
  have arr: "extractImages (Arr xs) p = Inr (images, w) \<longrightarrow>
          (\<exists>parts xs'. w = Arr xs' \<and> images = concat parts \<and>
             length parts = length xs \<and> length xs' = length xs \<and>
             (\<forall>j<length xs.
                extractImages (xs ! j) ((if p = [] then [] else p @ ''.'') @ dec j)
                  = Inr (parts ! j, xs' ! j)))"
  proof
    assume "extractImages (Arr xs) p = Inr (images, w)"
    then obtain xs' where
      e: "extractImages_elems xs 0 (if p \<noteq> [] then p @ ''.'' else p) = Inr (images, xs')"
      and w: "w = Arr xs'"
      by (auto split: sum.splits prod.splits)
    from extractImages_elems_paths [OF e] w
    show "\<exists>parts xs'. w = Arr xs' \<and> images = concat parts \<and>
             length parts = length xs \<and> length xs' = length xs \<and>
             (\<forall>j<length xs.
                extractImages (xs ! j) ((if p = [] then [] else p @ ''.'') @ dec j)
                  = Inr (parts ! j, xs' ! j))"
      by (cases "p = []") auto
  qed
  have obj: "\<not> isTypeObject (Obj fs) \<and> extractImages (Obj fs) p = Inr (images, w) \<longrightarrow>
          (\<exists>parts fs'. w = Obj fs' \<and> images = concat parts \<and>
             length parts = length fs \<and> map fst fs' = map fst fs \<and>
             (\<forall>j<length fs.
                extractImages (snd (fs ! j)) ((if p = [] then [] else p @ ''.'') @ fst (fs ! j))
                  = Inr (parts ! j, snd (fs' ! j))))"
  proof
    assume a: "\<not> isTypeObject (Obj fs) \<and> extractImages (Obj fs) p = Inr (images, w)"
    then obtain fs' where
      e: "extractImages_fields fs (if p \<noteq> [] then p @ ''.'' else p) = Inr (images, fs')"
      and w: "w = Obj fs'"
      by (auto simp del: isTypeObject.simps split: sum.splits prod.splits)
    from extractImages_fields_paths [OF e] w
    show "\<exists>parts fs'. w = Obj fs' \<and> images = concat parts \<and>
             length parts = length fs \<and> map fst fs' = map fst fs \<and>
             (\<forall>j<length fs.
                extractImages (snd (fs ! j)) ((if p = [] then [] else p @ ''.'') @ fst (fs ! j))
                  = Inr (parts ! j, snd (fs' ! j)))"
      by (cases "p = []") auto
  qed
  have ex0: "extractImages
         (Obj [(''type'', Str ''T''),
               (''data'', Obj [(''items'', Arr [Obj [(''type'', Str ''Texture2D''), (''data'', Obj kvs)]])])]) p
       = Inr ([Obj [(''data'', own kvs ''data''), (''width'', own kvs ''width''),
                    (''height'', own kvs ''height''),
                    (''path'', Str ((if p = [] then [] else p @ ''.'') @ ''items.0''))]],
              Obj [(''type'', Str ''T''),
                   (''data'', Obj [(''items'', Arr [Obj [(''type'', Str ''Texture2D''),
                       (''data'', Obj (AList.delete ''height'' (AList.delete ''width''
                          (AList.delete ''data'' kvs))))]])])])"
    by (simp add: bindE_def own_def dec_examples)
  have ex1: "extractImages
         (Obj [(''type'', Str ''T''),
               (''data'', Obj [(''items'',
                  Arr [Num 7, Obj [(''type'', Str ''Texture2D''), (''data'', Obj kvs)]])])]) p
       = Inr ([Obj [(''data'', own kvs ''data''), (''width'', own kvs ''width''),
                    (''height'', own kvs ''height''),
                    (''path'', Str ((if p = [] then [] else p @ ''.'') @ ''items.1''))]],
              Obj [(''type'', Str ''T''),
                   (''data'', Obj [(''items'', Arr [Num 7, Obj [(''type'', Str ''Texture2D''),
                       (''data'', Obj (AList.delete ''height'' (AList.delete ''width''
                          (AList.delete ''data'' kvs))))]])])])"
    using dec_examples(2) by (simp add: bindE_def own_def)
  from wrap arr obj ex0 ex1 parse_index_dec [of n] dec_examples show ?thesis
    by (simp only: simp_thms)
qed

theorem extractImages_path_tag_transparent_witness:
  "''T'' \<noteq> ''Texture2D'' \<and>
   extractImages
     (Obj [(''type'', Str ''T''),
           (''data'', Obj [(''items'', Arr [Obj [(''type'', Str ''Texture2D''),
              (''data'', Obj [(''width'', Num 2), (''height'', Num 1), (''data'', Buf [1, 2])])]])])]) []
   = Inr ([Obj [(''data'', Buf [1, 2]), (''width'', Num 2), (''height'', Num 1),
                (''path'', Str ''items.0'')]],
          Obj [(''type'', Str ''T''),
               (''data'', Obj [(''items'', Arr [Obj [(''type'', Str ''Texture2D''),
                   (''data'', Obj [])]])])]) \<and>
   extractImages
     (Arr [Num 7, Obj [(''type'', Str ''Texture2D''),
              (''data'', Obj [(''width'', Num 2), (''height'', Num 1), (''data'', Buf [1, 2])])]])
     ''items''
   = Inr ([Obj [(''data'', Buf [1, 2]), (''width'', Num 2), (''height'', Num 1),
                (''path'', Str ''items.1'')]],
          Arr [Num 7, Obj [(''type'', Str ''Texture2D''), (''data'', Obj [])]]) \<and>
   extractImages
     (Obj [(''type'', Str ''Texture2D''),
           (''data'', Obj [(''width'', Num 2), (''height'', Num 1), (''data'', Buf [1, 2])])])
     (''items.'' @ dec 1)
   = Inr ([Obj [(''data'', Buf [1, 2]), (''width'', Num 2), (''height'', Num 1),
                (''path'', Str ''items.1'')]],
          Obj [(''type'', Str ''Texture2D''), (''data'', Obj [])])"
  using extractImages_path_tag_transparent
    [where t = "''T''" and p = "[]"
       and kvs = "[(''width'', Num 2), (''height'', Num 1), (''data'', Buf [1, 2])]"
       and v = "Obj [(''items'', Arr [Obj [(''type'', Str ''Texture2D''),
              (''data'', Obj [(''width'', Num 2), (''height'', Num 1), (''data'', Buf [1, 2])])]])]"]
  by (simp add: own_def bindE_def dec_examples)


section \<open>Facts about the transcoder\<close>

lemma of_char_char_of_byte: "(of_char (char_of (n::nat)) :: byte) = of_nat n"
proof -
  have "(of_char (char_of n) :: byte) = of_nat (of_char (char_of n) :: nat)"
    by (simp only: of_nat_of_char)
  also have "\<dots> = of_nat (n mod 256)" by simp
  also have "\<dots> = of_nat n"
    by (simp add: word_of_nat_eq_iff take_bit_eq_mod)
  finally show ?thesis .
qed

lemma int32le_small:
  "int32le 0 = [0, 0, 0, 0]" "int32le 1 = [1, 0, 0, 0]"
  "int32le 5 = [5, 0, 0, 0]" "int32le 9 = [9, 0, 0, 0]"
  by (simp_all add: int32le_def)

lemmas transcode_defs =
  transcode_def BufferConsumer_new_def skipString_def skipProperties_def skipValue_def
  consume_def bindE_def concat_buf_def writeInt32LE_def writeAscii_def buffer_toString_def
  char_of_eq_iff of_char_char_of_byte

text \<open>
  C2.  The minimal segment: the magic, an empty id and an empty description, no map
  property, one tileset with id \<^verbatim>\<open>t\<close>, an empty description and the image source
  \<^verbatim>\<open>tiles\<close>, any 32 bytes of sizes, margin and spacing, no tileset property, then any
  3 bytes.  The transcoder returns \<^verbatim>\<open>tileSheets = ["tiles.png"]\<close>; the length field
  of the image source is written as 9 (the bytes 9, 0, 0, 0) before the nine characters
  of \<^verbatim>\<open>tiles.png\<close>; every other field is copied, and the 3 trailing bytes are the last
  3 bytes of the output.
\<close>

theorem transcode_minimal_segment:
  assumes "length sizes = 32" and "length trailing = 3"
  shows "transcode (map of_char ''tBIN10'' @ int32le 0 @ int32le 0 @ int32le 0 @ int32le 1 @
            int32le 1 @ map of_char ''t'' @ int32le 0 @ int32le 5 @ map of_char ''tiles'' @
            sizes @ int32le 0 @ trailing)
       = Inr (map of_char ''tBIN10'' @ int32le 0 @ int32le 0 @ int32le 0 @ int32le 1 @
            int32le 1 @ map of_char ''t'' @ int32le 0 @ int32le 9 @ map of_char ''tiles.png'' @
            sizes @ int32le 0 @ trailing, [''tiles.png''])
       \<and> int32le 9 = [9, 0, 0, 0]"
  using assms by (simp add: int32le_small transcode_defs)

theorem transcode_minimal_segment_witness:
  "length (replicate 32 (7 :: byte)) = 32 \<and> length [1, 2, 3 :: byte] = 3 \<and>
   transcode (map of_char ''tBIN10'' @ int32le 0 @ int32le 0 @ int32le 0 @ int32le 1 @
            int32le 1 @ map of_char ''t'' @ int32le 0 @ int32le 5 @ map of_char ''tiles'' @
            replicate 32 7 @ int32le 0 @ [1, 2, 3])
       = Inr (map of_char ''tBIN10'' @ int32le 0 @ int32le 0 @ int32le 0 @ int32le 1 @
            int32le 1 @ map of_char ''t'' @ int32le 0 @ int32le 9 @ map of_char ''tiles.png'' @
            replicate 32 7 @ int32le 0 @ [1, 2, 3], [''tiles.png''])"
  using transcode_minimal_segment [of "replicate 32 7" "[1, 2, 3]"] by simp

subsection \<open>A property tag that is none of 0, 1, 2, 3\<close>

lemma bindE_Inl_iff:
  "bindE m f = Inl e \<longleftrightarrow> m = Inl e \<or> (\<exists>x. m = Inr x \<and> f x = Inl e)"
  by (cases m) (auto simp: bindE_def)

lemma consume_not: "consume n r \<noteq> Inl UnknownPropertyTag"
  by (simp add: consume_def)

lemma readInt32LE_not: "readInt32LE bs \<noteq> Inl UnknownPropertyTag"
  by (cases bs rule: readInt32LE.cases) auto

lemma writeInt32LE_not: "writeInt32LE n out \<noteq> Inl UnknownPropertyTag"
  by (simp add: writeInt32LE_def)

lemma buffer_toString_not: "buffer_toString bs \<noteq> Inl UnknownPropertyTag"
  by (simp add: buffer_toString_def)

lemmas prim_not = consume_not readInt32LE_not writeInt32LE_not buffer_toString_not

lemma skipString_not: "skipString st \<noteq> Inl UnknownPropertyTag"
  unfolding skipString_def
  by (auto simp: bindE_Inl_iff prim_not split: prod.splits)

lemma skipValue_not: "skipValue t st \<noteq> Inl UnknownPropertyTag"
  unfolding skipValue_def
  by (auto simp: bindE_Inl_iff prim_not skipString_not split: prod.splits list.splits)

lemma skipProperties_loop_not: "skipProperties_loop n st \<noteq> Inl UnknownPropertyTag"
proof (induction n arbitrary: st)
  case 0
  show ?case by simp
next
  case (Suc n)
  show ?case
    by (auto simp: bindE_Inl_iff prim_not skipString_not skipValue_not Suc split: prod.splits)
qed

lemma skipProperties_not: "skipProperties st \<noteq> Inl UnknownPropertyTag"
  unfolding skipProperties_def
  by (auto simp: bindE_Inl_iff prim_not skipProperties_loop_not split: prod.splits)

lemma tileSheets_loop_not: "tileSheets_loop n st ts \<noteq> Inl UnknownPropertyTag"
proof (induction n arbitrary: st ts)
  case 0
  show ?case by simp
next
  case (Suc n)
  show ?case
    by (auto simp: Let_def bindE_Inl_iff prim_not skipString_not skipProperties_not Suc
        split: prod.splits)
qed

lemma transcode_not: "transcode m \<noteq> Inl UnknownPropertyTag"
  unfolding transcode_def
  by (auto simp: bindE_Inl_iff prim_not skipString_not skipProperties_not tileSheets_loop_not
      split: prod.splits)

lemma skipValue_unknown:
  "t \<noteq> 0 \<Longrightarrow> t \<noteq> 1 \<Longrightarrow> t \<noteq> 2 \<Longrightarrow> t \<noteq> 3 \<Longrightarrow> skipValue [t] st = Inr st"
  by (cases st) (simp add: skipValue_def)

text \<open>
  C1, as the claim states it, fails.  A segment with one map property whose key is
  \<^verbatim>\<open>k\<close> and whose tag byte is 5, no tileset and two more bytes is transcoded without
  any error: the output is the input, the tag byte 5 included.
\<close>

theorem unknown_property_tag_counterexample:
  "transcode (map of_char ''tBIN10'' @ int32le 0 @ int32le 0 @ int32le 1 @
              int32le 1 @ map of_char ''k'' @ [5] @ int32le 0 @ [9, 9])
   = Inr (map of_char ''tBIN10'' @ int32le 0 @ int32le 0 @ int32le 1 @
          int32le 1 @ map of_char ''k'' @ [5] @ int32le 0 @ [9, 9], [])
   \<and> transcode (map of_char ''tBIN10'' @ int32le 0 @ int32le 0 @ int32le 1 @
              int32le 1 @ map of_char ''k'' @ [5] @ int32le 0 @ [9, 9])
     \<noteq> Inl UnknownPropertyTag"
  by (simp add: int32le_small transcode_defs)

text \<open>
  C1, amended.  The \<^verbatim>\<open>switch\<close> on the tag has no default case.  When the key of a
  property has been copied and the next byte is a tag \<open>t\<close> that is none of 0, 1, 2, 3,
  the loop copies that one byte, consumes nothing for a value and goes on with the
  remaining properties from the byte after the tag.  No input makes the transcoder end
  with \<open>UnknownPropertyTag\<close>.
\<close>

theorem unknown_property_tag_is_copied:
  assumes "skipString (buf, out) = Inr (buf1, out1)"
    and "buffer buf1 = t # rest"
    and "t \<noteq> 0" "t \<noteq> 1" "t \<noteq> 2" "t \<noteq> 3"
  shows "skipProperties_loop (Suc n) (buf, out) =
           skipProperties_loop n (buf1\<lparr>buffer := rest, position := position buf1 + 1\<rparr>, out1 @ [t])
         \<and> transcode m \<noteq> Inl UnknownPropertyTag"
  using assms by (simp add: bindE_def consume_def concat_buf_def skipValue_unknown transcode_not)

theorem unknown_property_tag_is_copied_witness:
  "skipString (\<lparr>buffer = [1, 0, 0, 0, 107, 5, 7], position = 0\<rparr>, [])
     = Inr (\<lparr>buffer = [5, 7], position = 5\<rparr>, [1, 0, 0, 0, 107]) \<and>
   buffer \<lparr>buffer = [5, 7], position = 5\<rparr> = 5 # [7] \<and>
   (5 :: byte) \<noteq> 0 \<and> (5 :: byte) \<noteq> 1 \<and> (5 :: byte) \<noteq> 2 \<and> (5 :: byte) \<noteq> 3 \<and>
   skipProperties_loop (Suc 0) (\<lparr>buffer = [1, 0, 0, 0, 107, 5, 7], position = 0\<rparr>, [])
     = Inr (\<lparr>buffer = [7], position = 6\<rparr>, [1, 0, 0, 0, 107, 5]) \<and>
   transcode [] \<noteq> Inl UnknownPropertyTag"
  using unknown_property_tag_is_copied
    [of "\<lparr>buffer = [1, 0, 0, 0, 107, 5, 7], position = 0\<rparr>" "[]"
        "\<lparr>buffer = [5, 7], position = 5\<rparr>" "[1, 0, 0, 0, 107]" 5 "[7]" 0 "[]"]
  by (simp add: int32le_small transcode_defs)


section \<open>Facts about the reinjection pass, the batch driver and the placeholders\<close>

lemma bindE_Inr_iff:
  "bindE m f = Inr y \<longleftrightarrow> (\<exists>x. m = Inr x \<and> f x = Inr y)"
  by (cases m) (auto simp: bindE_def)

lemma own_update: "own (AList.update k v kvs) k' = (if k' = k then v else own kvs k')"
  by (simp add: own_def update_conv')

lemma own_absent: "k \<notin> set (map fst kvs) \<Longrightarrow> own kvs k = Undefined"
  by (simp add: own_def map_of_eq_None_iff [THEN iffD2])

lemmas sample_defs =
  sample_env_def sample_extname_def sample_dirname_def sample_basename_def base_of_def
  sample_read_def sample_png_read_def getImageName_def

text \<open>
  C8.  A document with no \<^verbatim>\<open>extractedImages\<close> field comes back from the
  reinjection pass as it is.  The statement holds in every environment, also in one
  where no file can be read and no image decoded: the pass reads no sidecar and walks
  no node.
\<close>

theorem onPostload_without_extractedImages:
  assumes "''extractedImages'' \<notin> set (map fst kvs)"
  shows "onPostload E inputFile (Obj kvs) = Inr (Obj kvs)"
  using assms by (simp add: onPostload_def bindE_def own_absent)

theorem onPostload_without_extractedImages_witness:
  "''extractedImages'' \<notin> set (map fst [(''content'', sample_texture)]) \<and>
   onPostload (sample_env []) ''a.yaml'' (Obj [(''content'', sample_texture)])
   = Inr (Obj [(''content'', sample_texture)])"
  using onPostload_without_extractedImages
    [of "[(''content'', sample_texture)]" "sample_env []" "''a.yaml''"]
  by simp

text \<open>
  C9.  Let the walk reach a file with the extension \<^verbatim>\<open>.xnb\<close> or \<^verbatim>\<open>.yaml\<close> and let
  the job throw \<open>e\<close> on it, leaving the world \<open>w2\<close>.  The wrapped job returns
  normally if \<open>e\<close> is \<open>ReadError\<close> and throws \<open>e\<close> if it is any other exception.  So
  after a \<open>ReadError\<close> the walk goes on with the files that follow, from the world that
  the failed job left; after any other exception it ends with that exception and the
  files that follow are not processed.  For a directory, \<^verbatim>\<open>applyOrRecurse\<close> is this walk
  with the wrapped job.
\<close>

theorem readError_abandons_one_job_only:
  fixes fn :: "'w job"
  assumes "ext = toLowerCase (path_extname E name)"
    and "ext = ''.xnb'' \<or> ext = ''.yaml''"
    and "sourceFile = path_join E root name"
    and "targetFile = path_join E (replace root input output)
           (path_basename E name ext @ (if ext = ''.xnb'' then ''.yaml'' else ''.xnb''))"
    and "w1 = (if quiet H then w else console_log H sourceFile w)"
    and "fn sourceFile targetFile w1 = (Some e, w2)"
  shows "readErrorWrapper fn sourceFile targetFile w1 = (if e = ReadError then None else Some e, w2)
    \<and> walk_loop E H (readErrorWrapper fn) input output ((root, name) # files) w
        = (if e = ReadError then walk_loop E H (readErrorWrapper fn) input output files w2
           else (Some e, w2))
    \<and> (statSync H input w0 = Inr st \<and> \<not> isFile st \<and> isDirectory st \<longrightarrow>
         applyOrRecurse E H fn input output w0
         = walk_loop E H (readErrorWrapper fn) input output (walk_files H input w0) w0)"
  using assms by (auto simp: readErrorWrapper_def applyOrRecurse_def Let_def)

theorem readError_abandons_one_job_only_witness:
  "''.xnb'' = toLowerCase (path_extname (sample_env []) ''bad.xnb'') \<and>
   ''in/bad.xnb'' = path_join (sample_env []) ''in'' ''bad.xnb'' \<and>
   ''out/bad.yaml'' = path_join (sample_env []) (replace ''in'' ''in'' ''out'')
        (path_basename (sample_env []) ''bad.xnb'' ''.xnb'' @ ''.yaml'') \<and>
   sample_job ''in/bad.xnb'' ''out/bad.yaml'' [''in/bad.xnb''] = (Some ReadError, [''in/bad.xnb'']) \<and>
   readErrorWrapper sample_job ''in/bad.xnb'' ''out/bad.yaml'' [''in/bad.xnb''] = (None, [''in/bad.xnb'']) \<and>
   walk_loop (sample_env []) sample_host (readErrorWrapper sample_job) ''in'' ''out''
     ((''in'', ''bad.xnb'') # [(''in'', ''notes.txt''), (''in'', ''good.xnb'')]) []
     = (None, [''in/bad.xnb'', ''in/good.xnb'', ''out/good.yaml'']) \<and>
   applyOrRecurse (sample_env []) sample_host sample_job ''in'' ''out'' []
     = (None, [''in/bad.xnb'', ''in/good.xnb'', ''out/good.yaml''])"
  using readError_abandons_one_job_only
    [where ext = "''.xnb''" and E = "sample_env []" and name = "''bad.xnb''"
       and sourceFile = "''in/bad.xnb''" and root = "''in''" and targetFile = "''out/bad.yaml''"
       and ?input = "''in''" and ?output = "''out''" and ?w1.0 = "[''in/bad.xnb'']"
       and H = sample_host and w = "[]" and fn = sample_job and e = ReadError
       and ?w2.0 = "[''in/bad.xnb'']" and ?w0.0 = "[]"
       and st = "\<lparr>isFile = False, isDirectory = True\<rparr>"
       and files = "[(''in'', ''notes.txt''), (''in'', ''good.xnb'')]"]
  by (simp add: sample_defs sample_host_def sample_job_def readErrorWrapper_def applyOrRecurse_def
      toLowerCase_def lower_char_def replace_def Let_def)

subsection \<open>What is left of a placeholder\<close>

lemma extractImages_placeholders:
  "extractImages v p = Inr (images, v') \<Longrightarrow> list_all is_placeholder images"
  "extractImages_elems xs i p = Inr (images, xs') \<Longrightarrow> list_all is_placeholder images"
  "extractImages_fields kvs p = Inr (images, kvs') \<Longrightarrow> list_all is_placeholder images"
proof (induction v p and xs i p and kvs p arbitrary: images v' and images xs' and images kvs'
    rule: extractImages_extractImages_elems_extractImages_fields.induct)
  case (1 kvs path)
  show ?case
  proof (cases "isTypeObject (Obj kvs) \<and> loose_eq_text (own kvs ''type'') ''Texture2D''")
    case True
    with "1.prems" obtain d w h where
      "images = [Obj [(''data'', d), (''width'', w), (''height'', h), (''path'', Str path)]]"
      by (auto simp: bindE_Inr_iff Let_def simp del: isTypeObject.simps)
    then show ?thesis by (simp add: is_placeholder_def)
  next
    case False
    show ?thesis
    proof (cases "isTypeObject (Obj kvs)")
      case True
      with False "1.prems" obtain payload' where
        "extractImages (own kvs ''data'') path = Inr (images, payload')"
        by (auto simp del: isTypeObject.simps split: sum.splits prod.splits)
      with "1.IH"(1) [OF False True] show ?thesis by blast
    next
      case nt: False
      with False "1.prems" obtain kvs2 where
        "extractImages_fields kvs (if path \<noteq> [] then path @ ''.'' else path) = Inr (images, kvs2)"
        by (auto simp del: isTypeObject.simps split: sum.splits prod.splits)
      with "1.IH"(2) [OF False nt] show ?thesis by blast
    qed
  qed
next
  case (2 xs path)
  from "2.prems" obtain xs2 where
    "extractImages_elems xs 0 (if path \<noteq> [] then path @ ''.'' else path) = Inr (images, xs2)"
    by (auto split: sum.splits prod.splits)
  with "2.IH" show ?case by blast
next
  case (10 x xs i path)
  from "10.prems" obtain im1 x' im2 xs2 where
    a: "extractImages x (path @ dec i) = Inr (im1, x')"
    and b: "extractImages_elems xs (Suc i) path = Inr (im2, xs2)"
    and c: "images = im1 @ im2"
    by (auto split: sum.splits prod.splits)
  from "10.IH"(1) [OF a] "10.IH"(2) [OF a _ b] c show ?case by simp
next
  case (12 key v kvs path)
  from "12.prems" obtain im1 x' im2 xs2 where
    a: "extractImages v (path @ key) = Inr (im1, x')"
    and b: "extractImages_fields kvs path = Inr (im2, xs2)"
    and c: "images = im1 @ im2"
    by (auto split: sum.splits prod.splits)
  from "12.IH"(1) [OF a] "12.IH"(2) [OF a _ b] c show ?case by simp
qed simp_all

lemma writeImages_paths:
  "list_all is_placeholder images \<Longrightarrow> writeImages E f images = Inr (images', written) \<Longrightarrow>
   \<exists>paths. length paths = length images \<and> images' = map (\<lambda>p. Obj [(''path'', Str p)]) paths"
proof (induction images arbitrary: images' written)
  case Nil
  then show ?case by simp
next
  case (Cons img images)
  from Cons.prems(1) have ph: "is_placeholder img" and rest: "list_all is_placeholder images"
    by simp_all
  from ph obtain d w h p where
    img: "img = Obj [(''data'', d), (''width'', w), (''height'', h), (''path'', Str p)]"
    unfolding is_placeholder_def by blast
  from Cons.prems(2) obtain images2 written2 where
    r: "writeImages E f images = Inr (images2, written2)"
    and i': "images' = Obj [(''path'', Str p)] # images2"
    by (auto simp: img bindE_Inr_iff own_def Let_def)
  from Cons.IH [OF rest r] obtain paths where
    "length paths = length images" "images2 = map (\<lambda>p. Obj [(''path'', Str p)]) paths"
    by blast
  then have "length (p # paths) = length (img # images) \<and>
      images' = map (\<lambda>p. Obj [(''path'', Str p)]) (p # paths)"
    using i' by simp
  then show ?case by blast
qed

lemma presave_images_entries:
  assumes "presave_images E outputFile (Obj kvs) = Inr (data', written)"
    and "own kvs ''extractedImages'' = Undefined"
  shows "get_prop data' ''extractedImages'' = Inr Undefined \<or>
     (\<exists>paths. paths \<noteq> [] \<and>
        get_prop data' ''extractedImages'' = Inr (Arr (map (\<lambda>p. Obj [(''path'', Str p)]) paths)))"
proof -
  from assms(1) obtain images content images' where
    ex: "extractImages (own kvs ''content'') [] = Inr (images, content)"
    and wr: "writeImages E outputFile images = Inr (images', written)"
    and d': "(if images' \<noteq> []
            then set_prop (put_child (Obj kvs) ''content'' content) ''extractedImages'' (Arr images')
            else Inr (put_child (Obj kvs) ''content'' content)) = Inr data'"
    by (auto simp: presave_images_def bindE_Inr_iff)
  from writeImages_paths [OF extractImages_placeholders(1) [OF ex] wr] obtain paths where
    paths: "images' = map (\<lambda>p. Obj [(''path'', Str p)]) paths" by blast
  show ?thesis
  proof (cases "images' = []")
    case True
    with d' assms(2) show ?thesis by (auto simp: own_update)
  next
    case False
    with d' paths show ?thesis by (auto simp: own_update)
  qed
qed

lemma presave_map_keeps:
  assumes "presave_map E outputFile m (Obj kvs) = Inr (data1, written)" and "k \<noteq> ''content''"
  shows "\<exists>kvs1. data1 = Obj kvs1 \<and> own kvs1 k = own kvs k"
proof -
  from assms(1) obtain c where "data1 = put_child (Obj kvs) ''content'' c"
    by (cases m) (auto simp: presave_map_def bindE_Inr_iff Let_def split: prod.splits)
  with assms(2) show ?thesis by (simp add: own_update)
qed

lemma onPresave_sample_texture:
  "onPresave (sample_env []) ''out/a.yaml'' (Obj [(''content'', sample_texture)])
   = Inr (Obj [(''content'', Obj [(''type'', Str ''Texture2D''), (''data'', Obj [(''format'', Num 0)])]),
               (''extractedImages'', Arr [Obj [(''path'', Str [])]])],
          [(''out/a..png'', [2, 0, 0, 0, 1, 0, 0, 0, 255, 0, 0, 255, 0, 255, 0, 255])])"
  by (simp add: sample_texture_def onPresave_def presave_images_def extractMap_def bindE_def
      own_def sample_defs int32le_def)

text \<open>
  C6, as the claim states it, fails.  After the extraction pass on a document whose
  content is a \<^verbatim>\<open>Texture2D\<close> node of width 2 and height 1, the one entry of
  \<^verbatim>\<open>extractedImages\<close> is \<^verbatim>\<open>{path: ""}\<close>: it has no \<^verbatim>\<open>width\<close> and no
  \<^verbatim>\<open>height\<close>.
\<close>

theorem extractedImages_entry_counterexample:
  "(case onPresave (sample_env []) ''out/a.yaml'' (Obj [(''content'', sample_texture)]) of
      Inr (data', written) \<Rightarrow>
        get_prop data' ''extractedImages'' = Inr (Arr [Obj [(''path'', Str [])]])
    | Inl e \<Rightarrow> False)
   \<and> get_prop (Obj [(''path'', Str [])]) ''width'' = Inr Undefined
   \<and> get_prop (Obj [(''path'', Str [])]) ''height'' = Inr Undefined"
  by (simp add: onPresave_sample_texture own_def)

text \<open>
  C6, amended.  Lines 208 to 210 delete \<^verbatim>\<open>data\<close>, \<^verbatim>\<open>width\<close> and \<^verbatim>\<open>height\<close> from
  every placeholder once its image is written.  Whenever the extraction pass returns,
  for a document that came without \<^verbatim>\<open>extractedImages\<close>: either no image was found and
  the field is still absent, or the field is a list that is not empty and every entry is
  exactly \<^verbatim>\<open>{path: p}\<close>.
\<close>

theorem extractedImages_entries_carry_only_path:
  assumes "onPresave E outputFile (Obj kvs) = Inr (data', written)"
    and "''extractedImages'' \<notin> set (map fst kvs)"
  shows "get_prop data' ''extractedImages'' = Inr Undefined \<or>
     (\<exists>paths. paths \<noteq> [] \<and>
        get_prop data' ''extractedImages'' = Inr (Arr (map (\<lambda>p. Obj [(''path'', Str p)]) paths)))"
proof -
  from assms(1) obtain m content data1 written1 written2 where
    step: "(if m \<noteq> Null
            then presave_map E outputFile m (put_child (Obj kvs) ''content'' content)
            else Inr (put_child (Obj kvs) ''content'' content, [])) = Inr (data1, written1)"
    and im: "presave_images E outputFile data1 = Inr (data', written2)"
    by (auto simp: onPresave_def bindE_Inr_iff split: prod.splits)
  have "\<exists>kvs1. data1 = Obj kvs1 \<and> own kvs1 ''extractedImages'' = own kvs ''extractedImages''"
  proof (cases "m \<noteq> Null")
    case True
    with step have "presave_map E outputFile m (Obj (AList.update ''content'' content kvs))
        = Inr (data1, written1)" by simp
    from presave_map_keeps [OF this, of "''extractedImages''"] show ?thesis
      by (simp add: own_update)
  next
    case False
    with step show ?thesis by (auto simp: own_update)
  qed
  then obtain kvs1 where "data1 = Obj kvs1" and "own kvs1 ''extractedImages'' = Undefined"
    using own_absent [OF assms(2)] by auto
  with im show ?thesis using presave_images_entries by blast
qed

theorem extractedImages_entries_carry_only_path_witness:
  "onPresave (sample_env []) ''out/a.yaml'' (Obj [(''content'', sample_texture)])
     = Inr (Obj [(''content'', Obj [(''type'', Str ''Texture2D''), (''data'', Obj [(''format'', Num 0)])]),
                 (''extractedImages'', Arr [Obj [(''path'', Str [])]])],
            [(''out/a..png'', [2, 0, 0, 0, 1, 0, 0, 0, 255, 0, 0, 255, 0, 255, 0, 255])]) \<and>
   ''extractedImages'' \<notin> set (map fst [(''content'', sample_texture)]) \<and>
   get_prop (Obj [(''content'', Obj [(''type'', Str ''Texture2D''), (''data'', Obj [(''format'', Num 0)])]),
                  (''extractedImages'', Arr [Obj [(''path'', Str [])]])]) ''extractedImages''
     = Inr (Arr (map (\<lambda>p. Obj [(''path'', Str p)]) [[]]))"
  using extractedImages_entries_carry_only_path
    [of "sample_env []" "''out/a.yaml''" "[(''content'', sample_texture)]"
        "Obj [(''content'', Obj [(''type'', Str ''Texture2D''), (''data'', Obj [(''format'', Num 0)])]),
              (''extractedImages'', Arr [Obj [(''path'', Str [])]])]"
        "[(''out/a..png'', [2, 0, 0, 0, 1, 0, 0, 0, 255, 0, 0, 255, 0, 255, 0, 255])]"]
  by (simp add: onPresave_sample_texture own_def)

section \<open>Facts about extraction and reinjection together\<close>


lemma own_Some: "map_of kvs k = Some v \<Longrightarrow> own kvs k = v"
  by (simp add: own_def)









subsection \<open>The tilemap segment\<close>

lemma bindE_pair_id: "bindE m (\<lambda>(d, w). Inr (d, [] @ w)) = m"
  by (cases m) (auto simp: bindE_def)

text \<open>
  C7.  Let the content of the document be a mapping whose field \<^verbatim>\<open>data\<close> is a mapping
  whose field \<^verbatim>\<open>data\<close> is a buffer.  If the first 6 bytes of the buffer are the
  characters \<^verbatim>\<open>tBIN10\<close>, \<^verbatim>\<open>extractMap\<close> returns the buffer and deletes that field,
  and the extraction pass transcodes the buffer, writes the result to the \<^verbatim>\<open>.tbin\<close>
  file, stores the list of names as \<^verbatim>\<open>tileSheets\<close> in the mapping that held the
  buffer, and goes on to the images (an error of the transcoder ends the pass).  If they
  are not, \<^verbatim>\<open>extractMap\<close> returns \<^verbatim>\<open>null\<close> and leaves the tree as it is, and the
  pass is the image extraction alone: no field is deleted, nothing is transcoded, no
  \<^verbatim>\<open>tileSheets\<close> is stored.
\<close>

theorem tilemap_detected_by_magic_and_replaced:
  assumes "map_of kvs ''content'' = Some (Obj ckvs)"
    and "map_of ckvs ''data'' = Some (Obj dkvs)"
    and "map_of dkvs ''data'' = Some (Buf bytes)"
  shows "extractMap (Obj ckvs) =
           (if take 6 bytes = map of_char ''tBIN10''
            then Inr (Buf bytes, Obj (AList.update ''data'' (Obj (AList.delete ''data'' dkvs)) ckvs))
            else Inr (Null, Obj ckvs))
     \<and> onPresave E outputFile (Obj kvs) =
           (if take 6 bytes = map of_char ''tBIN10''
            then bindE (transcode bytes) (\<lambda>(out, tileSheets).
                 bindE (presave_images E outputFile
                          (Obj (AList.update ''content''
                             (Obj (AList.update ''data''
                                (Obj (AList.update ''tileSheets'' (Arr (map Str tileSheets))
                                        (AList.delete ''data'' dkvs)))
                                ckvs))
                             kvs)))
                   (\<lambda>(data', written).
                      Inr (data',
                           (path_join E (path_dirname E outputFile)
                              (path_basename E outputFile (path_extname E outputFile) @ ''.tbin''), out)
                           # written)))
            else presave_images E outputFile (Obj kvs))"
proof -
  have em: "extractMap (Obj ckvs) =
           (if take 6 bytes = map of_char ''tBIN10''
            then Inr (Buf bytes, Obj (AList.update ''data'' (Obj (AList.delete ''data'' dkvs)) ckvs))
            else Inr (Null, Obj ckvs))"
    using assms(2,3) by (simp add: extractMap_def bindE_def own_def)
  have op: "onPresave E outputFile (Obj kvs) =
           (if take 6 bytes = map of_char ''tBIN10''
            then bindE (transcode bytes) (\<lambda>(out, tileSheets).
                 bindE (presave_images E outputFile
                          (Obj (AList.update ''content''
                             (Obj (AList.update ''data''
                                (Obj (AList.update ''tileSheets'' (Arr (map Str tileSheets))
                                        (AList.delete ''data'' dkvs)))
                                ckvs))
                             kvs)))
                   (\<lambda>(data', written).
                      Inr (data',
                           (path_join E (path_dirname E outputFile)
                              (path_basename E outputFile (path_extname E outputFile) @ ''.tbin''), out)
                           # written)))
            else presave_images E outputFile (Obj kvs))"
  proof (cases "take 6 bytes = map of_char ''tBIN10''")
    case True
    show ?thesis
    proof (cases "transcode bytes")
      case (Inl e)
      with True em assms(1) show ?thesis
        by (simp add: onPresave_def presave_map_def own_Some bindE_def del: map_map list.map)
    next
      case (Inr r)
      obtain out tileSheets where r: "r = (out, tileSheets)" by (cases r)
      with Inr True em assms(1) show ?thesis
        by (simp add: onPresave_def presave_map_def own_Some own_update bindE_def Let_def
            split: sum.splits del: list.map)
    qed
  next
    case False
    with em assms(1) show ?thesis
      by (simp add: onPresave_def own_Some update_triv bindE_pair_id [unfolded bindE_def] bindE_def
          del: list.map)
  qed
  from em op show ?thesis by (simp del: list.map)
qed

lemma transcode_sample_segment:
  "transcode sample_segment
   = Inr (map of_char ''tBIN10'' @ int32le 0 @ int32le 0 @ int32le 0 @ int32le 1 @
            int32le 1 @ map of_char ''t'' @ int32le 0 @ int32le 9 @ map of_char ''tiles.png'' @
            replicate 32 7 @ int32le 0 @ [1, 2, 3], [''tiles.png''])"
  by (simp add: sample_segment_def int32le_small transcode_defs)

theorem tilemap_detected_by_magic_and_replaced_witness:
  "map_of [(''content'', Obj [(''type'', Str ''TBin''), (''data'', Obj [(''data'', Buf sample_segment)])])]
      ''content''
     = Some (Obj [(''type'', Str ''TBin''), (''data'', Obj [(''data'', Buf sample_segment)])]) \<and>
   map_of [(''type'', Str ''TBin''), (''data'', Obj [(''data'', Buf sample_segment)])] ''data''
     = Some (Obj [(''data'', Buf sample_segment)]) \<and>
   map_of [(''data'', Buf sample_segment)] ''data'' = Some (Buf sample_segment) \<and>
   take 6 sample_segment = map of_char ''tBIN10'' \<and>
   extractMap (Obj [(''type'', Str ''TBin''), (''data'', Obj [(''data'', Buf sample_segment)])])
     = Inr (Buf sample_segment, Obj [(''type'', Str ''TBin''), (''data'', Obj [])]) \<and>
   onPresave (sample_env []) ''out/m.yaml''
       (Obj [(''content'', Obj [(''type'', Str ''TBin''), (''data'', Obj [(''data'', Buf sample_segment)])])])
     = Inr (Obj [(''content'', Obj [(''type'', Str ''TBin''),
                    (''data'', Obj [(''tileSheets'', Arr [Str ''tiles.png''])])])],
            [(''out/m.tbin'',
              map of_char ''tBIN10'' @ int32le 0 @ int32le 0 @ int32le 0 @ int32le 1 @
              int32le 1 @ map of_char ''t'' @ int32le 0 @ int32le 9 @ map of_char ''tiles.png'' @
              replicate 32 7 @ int32le 0 @ [1, 2, 3])]) \<and>
   take 6 [255, 0, 0, 255, 0, 255, 0, 255] \<noteq> (map of_char ''tBIN10'' :: byte list) \<and>
   extractMap sample_texture = Inr (Null, sample_texture) \<and>
   onPresave (sample_env []) ''out/a.yaml'' (Obj [(''content'', sample_texture)])
     = presave_images (sample_env []) ''out/a.yaml'' (Obj [(''content'', sample_texture)])"
proof -
  have magic: "take 6 sample_segment = map of_char ''tBIN10''"
    by (simp add: sample_segment_def)
  have images: "presave_images E f
       (Obj [(''content'', Obj [(''type'', Str ''TBin''),
                (''data'', Obj [(''tileSheets'', Arr [Str ''tiles.png''])])])])
     = Inr (Obj [(''content'', Obj [(''type'', Str ''TBin''),
                (''data'', Obj [(''tileSheets'', Arr [Str ''tiles.png''])])])], [])" for E f
    by (simp add: presave_images_def bindE_def own_def dec_0)
  show ?thesis
    using tilemap_detected_by_magic_and_replaced
      [where kvs = "[(''content'', Obj [(''type'', Str ''TBin''), (''data'', Obj [(''data'', Buf sample_segment)])])]"
         and ckvs = "[(''type'', Str ''TBin''), (''data'', Obj [(''data'', Buf sample_segment)])]"
         and dkvs = "[(''data'', Buf sample_segment)]" and bytes = sample_segment
         and E = "sample_env []" and outputFile = "''out/m.yaml''"]
      tilemap_detected_by_magic_and_replaced
      [where kvs = "[(''content'', sample_texture)]"
         and ckvs = "[(''type'', Str ''Texture2D''),
                      (''data'', Obj [(''format'', Num 0), (''width'', Num 2), (''height'', Num 1),
                                      (''data'', Buf [255, 0, 0, 255, 0, 255, 0, 255])])]"
         and dkvs = "[(''format'', Num 0), (''width'', Num 2), (''height'', Num 1),
                      (''data'', Buf [255, 0, 0, 255, 0, 255, 0, 255])]"
         and bytes = "[255, 0, 0, 255, 0, 255, 0, 255]"
         and E = "sample_env []" and outputFile = "''out/a.yaml''"]
    by (simp add: magic images transcode_sample_segment bindE_def sample_defs sample_texture_def)
qed

subsection \<open>A path that addresses no node\<close>














text \<open>
  The path \<^verbatim>\<open>constructor\<close> on the same content addresses no node either, but every
  object inherits a property of that name: the walk leaves the tree and the model does
  not follow it.
\<close>

lemma inherited_segment_example:
  "resolve (Obj [(''type'', Str ''T''), (''data'', Obj [])]) ''constructor'' = None \<and>
   objectWalk sample_proto_has (Obj [(''type'', Str ''T''), (''data'', Obj [])]) ''constructor''
     = Inl OutsideModel"
  by (simp add: resolve.simps objectWalk.simps split_dot.simps own_def get_computed_def
      sample_proto_has_def)

end
